theory Spec2Isabelle
  imports Main "HOL-Library.DAList"
begin

section \<open>Data model of backend/src/socket.ts\<close>

text \<open>
  \<^verbatim>\<open>interface UserSocket extends Socket\<close>: the optional fields the handlers read and
  write; \<^verbatim>\<open>undefined\<close> is \<open>None\<close>. (The fields \<^verbatim>\<open>partnerId\<close> and \<^verbatim>\<open>searching\<close> of the
  interface are never read or written by any handler.)
\<close>

record socket =
  userId :: "string option"
  username :: "string option"
  chatPartnerId :: "string option"

text \<open>
  The events the server emits to a socket, with their payloads. Timestamps
  (\<^verbatim>\<open>new Date()\<close>) are natural numbers supplied by the caller of a handler.
\<close>

datatype event =
    Authenticated string string
  | Searching
  | ChatConnected "string option" "string option"
  | ErrorEvent string
  | ReceiveMessage string string string nat
  | MessageSent string nat
  | PartnerLeft
  | ChatEnded
  | VideoCallEnded "string option"

text \<open>
  The closure state of \<^verbatim>\<open>setupSocketHandlers\<close>. Socket objects are shared by reference
  between the two maps, so they live in a store indexed by a socket identity and the
  maps hold identities. \<^verbatim>\<open>userSockets\<close> is only read by key; \<^verbatim>\<open>waitingUsers\<close> is
  iterated (\<^verbatim>\<open>Array.from(waitingUsers.keys())\<close>), so it keeps the insertion order of a
  JavaScript \<^verbatim>\<open>Map\<close>: an association list with distinct keys, where \<^verbatim>\<open>set\<close> on a
  present key keeps its position and \<^verbatim>\<open>set\<close> on a new key appends. \<open>outbox\<close> logs
  every \<^verbatim>\<open>emit\<close> with the socket it was sent to, oldest first.
\<close>

record state =
  sockets :: "nat \<Rightarrow> socket"
  userSockets :: "string \<rightharpoonup> nat"
  waitingUsers :: "(string, nat) alist"
  outbox :: "(nat \<times> event) list"

definition fresh_socket :: socket where
  "fresh_socket = \<lparr>userId = None, username = None, chatPartnerId = None\<rparr>"

definition init_state :: state where
  "init_state = \<lparr>sockets = (\<lambda>_. fresh_socket), userSockets = Map.empty,
     waitingUsers = DAList.empty, outbox = []\<rparr>"

text \<open>JavaScript truthiness of an optional string: \<^verbatim>\<open>undefined\<close> and \<^verbatim>\<open>''\<close> are falsy.\<close>

fun truthy :: "string option \<Rightarrow> bool" where
  "truthy None = False"
| "truthy (Some s) = (s \<noteq> [])"

definition emit :: "nat \<Rightarrow> event \<Rightarrow> state \<Rightarrow> state" where
  "emit sid e s = s\<lparr>outbox := outbox s @ [(sid, e)]\<rparr>"

definition set_chatPartnerId :: "nat \<Rightarrow> string option \<Rightarrow> state \<Rightarrow> state" where
  "set_chatPartnerId sid v s =
     s\<lparr>sockets := (sockets s)(sid := (sockets s sid)\<lparr>chatPartnerId := v\<rparr>)\<rparr>"

definition waiting_keys :: "(string, nat) alist \<Rightarrow> string list" where
  "waiting_keys w = map fst (DAList.impl_of w)"

section \<open>Handlers\<close>

subsection \<open>authenticate\<close>

text \<open>
  \<open>decoded\<close> is the result of the external \<^verbatim>\<open>verifyToken\<close> (\<open>None\<close> when it returns
  null or throws); \<open>rnd\<close> is the value of
  \<^verbatim>\<open>Math.random().toString(36).substring(2, 15)\<close>.
\<close>

definition resolve_identity :: "string \<Rightarrow> (string \<times> string) option \<Rightarrow> string \<Rightarrow> string \<times> string" where
  "resolve_identity token decoded rnd =
     (if token \<noteq> [] \<and> take 11 token = ''mock_token_''
      then (drop 11 token, ''User_'' @ take 5 (drop 11 token))
      else (case decoded of
              Some (vu, vn) \<Rightarrow>
                (if vu \<noteq> [] then (vu, vn) else (rnd, ''Anonymous_'' @ take 5 rnd))
            | None \<Rightarrow> (rnd, ''Anonymous_'' @ take 5 rnd)))"

definition authenticate ::
  "string \<Rightarrow> (string \<times> string) option \<Rightarrow> string \<Rightarrow> nat \<Rightarrow> state \<Rightarrow> state" where
  "authenticate token decoded rnd sid s =
     (case resolve_identity token decoded rnd of
        (uid, uname) \<Rightarrow>
          emit sid (Authenticated uid uname)
            (s\<lparr>userSockets := (userSockets s)(uid \<mapsto> sid),
               sockets := (sockets s)(sid := (sockets s sid)\<lparr>userId := Some uid, username := Some uname\<rparr>)\<rparr>))"

subsection \<open>search_chat\<close>

definition auto_authenticate :: "string \<Rightarrow> nat \<Rightarrow> state \<Rightarrow> state" where
  "auto_authenticate anonymousId sid s =
     s\<lparr>sockets := (sockets s)(sid := (sockets s sid)
          \<lparr>userId := Some anonymousId, username := Some (''Anonymous_'' @ take 5 anonymousId)\<rparr>),
       userSockets := (userSockets s)(anonymousId \<mapsto> sid)\<rparr>"

text \<open>
  Lines 108-137, after the caller was put into \<^verbatim>\<open>waitingUsers\<close>; \<open>me\<close> is
  \<^verbatim>\<open>socket.userId\<close>. The two assignments to \<^verbatim>\<open>chatPartnerId\<close> run in the source's
  order (the two sockets may be one object).
\<close>

definition match_waiting :: "nat \<Rightarrow> string \<Rightarrow> state \<Rightarrow> state" where
  "match_waiting sid me s =
     (if size (waitingUsers s) \<ge> 2 then
        (case find (\<lambda>k. k \<noteq> me) (waiting_keys (waitingUsers s)) of
           None \<Rightarrow> s
         | Some partnerId \<Rightarrow>
             (if partnerId = [] then s
              else (case DAList.lookup (waitingUsers s) partnerId of
                      None \<Rightarrow> s
                    | Some psid \<Rightarrow>
                        (let s1 = s\<lparr>waitingUsers :=
                                      DAList.delete partnerId (DAList.delete me (waitingUsers s))\<rparr>;
                             s2 = set_chatPartnerId sid (Some partnerId) s1;
                             s3 = set_chatPartnerId psid (userId (sockets s2 sid)) s2;
                             s4 = emit sid (ChatConnected (Some partnerId) (username (sockets s3 psid))) s3
                         in emit psid (ChatConnected (userId (sockets s4 sid)) (username (sockets s4 sid))) s4))))
      else s)"

definition search_chat :: "string \<Rightarrow> nat \<Rightarrow> state \<Rightarrow> state" where
  "search_chat rnd sid s =
     (let s1 = (if \<not> truthy (userId (sockets s sid)) then auto_authenticate rnd sid s else s)
      in case userId (sockets s1 sid) of
           None \<Rightarrow> s1
         | Some me \<Rightarrow>
             match_waiting sid me
               (emit sid Searching (s1\<lparr>waitingUsers := DAList.update me sid (waitingUsers s1)\<rparr>)))"

text \<open>
  Two names for the outcome of the auto-authenticate block (lines 89-99): the state after
  it, and the \<^verbatim>\<open>userId\<close> the socket holds after it.
\<close>

definition caller_id :: "string \<Rightarrow> nat \<Rightarrow> state \<Rightarrow> string" where
  "caller_id rnd sid s =
     (case userId (sockets s sid) of Some u \<Rightarrow> (if u = [] then rnd else u) | None \<Rightarrow> rnd)"

definition after_auth :: "string \<Rightarrow> nat \<Rightarrow> state \<Rightarrow> state" where
  "after_auth rnd sid s =
     (if \<not> truthy (userId (sockets s sid)) then auto_authenticate rnd sid s else s)"

subsection \<open>send_message\<close>

text \<open>
  \<open>db\<close> is the outcome of \<^verbatim>\<open>prisma.chatMessage.create\<close>: the stored record's id and
  \<^verbatim>\<open>createdAt\<close>, or \<open>None\<close> when it throws and the handler builds the mock record
  from \<open>rnd\<close> and the clock.
\<close>

definition send_message ::
  "string \<Rightarrow> (string \<times> nat) option \<Rightarrow> string \<Rightarrow> nat \<Rightarrow> nat \<Rightarrow> nat \<Rightarrow> state \<Rightarrow> state" where
  "send_message message db rnd t_created t_sent sid s =
     (if \<not> truthy (userId (sockets s sid)) \<or> \<not> truthy (chatPartnerId (sockets s sid))
      then emit sid (ErrorEvent ''Not in a chat session'') s
      else (case (userId (sockets s sid), chatPartnerId (sockets s sid)) of
              (Some me, Some partner) \<Rightarrow>
                (case (case db of Some r \<Rightarrow> r | None \<Rightarrow> (rnd, t_created)) of
                   (mid, createdAt) \<Rightarrow>
                     emit sid (MessageSent mid createdAt)
                       (case userSockets s partner of
                          Some psid \<Rightarrow> emit psid (ReceiveMessage mid message me t_sent) s
                        | None \<Rightarrow> s))
            | _ \<Rightarrow> s))"

subsection \<open>leave_chat\<close>

definition leave_chat :: "nat \<Rightarrow> state \<Rightarrow> state" where
  "leave_chat sid s =
     (if \<not> truthy (userId (sockets s sid)) \<or> \<not> truthy (chatPartnerId (sockets s sid)) then s
      else (case chatPartnerId (sockets s sid) of
              None \<Rightarrow> s
            | Some partner \<Rightarrow>
                emit sid ChatEnded
                  (set_chatPartnerId sid None
                     (case userSockets s partner of
                        Some psid \<Rightarrow> set_chatPartnerId psid None (emit psid PartnerLeft s)
                      | None \<Rightarrow> s))))"

subsection \<open>start_chat_with_friend\<close>

text \<open>\<^verbatim>\<open>x || 'Friend'\<close> on an optional string.\<close>

definition or_Friend :: "string option \<Rightarrow> string" where
  "or_Friend n = (case n of Some x \<Rightarrow> (if x = [] then ''Friend'' else x) | None \<Rightarrow> ''Friend'')"

definition start_chat_with_friend :: "string \<Rightarrow> nat \<Rightarrow> state \<Rightarrow> state" where
  "start_chat_with_friend friendId sid s =
     (if \<not> truthy (userId (sockets s sid)) then emit sid (ErrorEvent ''Not authenticated'') s
      else (case userSockets s friendId of
              Some fsid \<Rightarrow>
                (let s1 = set_chatPartnerId sid (Some friendId) s;
                     s2 = set_chatPartnerId fsid (userId (sockets s1 sid)) s1;
                     s3 = emit sid (ChatConnected (Some friendId)
                                      (Some (or_Friend (username (sockets s2 fsid))))) s2
                 in emit fsid (ChatConnected (userId (sockets s3 sid))
                                 (Some (or_Friend (username (sockets s3 sid))))) s3)
            | None \<Rightarrow>
                emit sid (ErrorEvent ''This friend is currently offline. You can still send messages that they will receive when they come online.'') s))"

subsection \<open>end_video_call\<close>

definition end_video_call :: "nat \<Rightarrow> state \<Rightarrow> state" where
  "end_video_call sid s =
     (if \<not> truthy (chatPartnerId (sockets s sid)) then s
      else (case chatPartnerId (sockets s sid) of
              None \<Rightarrow> s
            | Some partner \<Rightarrow>
                (case userSockets s partner of
                   Some psid \<Rightarrow> emit psid (VideoCallEnded (userId (sockets s sid))) s
                 | None \<Rightarrow> s)))"

subsection \<open>disconnect\<close>

definition disconnect :: "nat \<Rightarrow> state \<Rightarrow> state" where
  "disconnect sid s =
     (if \<not> truthy (userId (sockets s sid)) then s
      else (case userId (sockets s sid) of
              None \<Rightarrow> s
            | Some me \<Rightarrow>
                (let s1 = s\<lparr>userSockets := (userSockets s)(me := None)\<rparr>;
                     s2 = s1\<lparr>waitingUsers := DAList.delete me (waitingUsers s1)\<rparr>
                 in if \<not> truthy (chatPartnerId (sockets s2 sid)) then s2
                    else (case chatPartnerId (sockets s2 sid) of
                            None \<Rightarrow> s2
                          | Some partner \<Rightarrow>
                              (case userSockets s2 partner of
                                 Some psid \<Rightarrow> set_chatPartnerId psid None (emit psid PartnerLeft s2)
                               | None \<Rightarrow> s2)))))"

section \<open>Sequences of match requests\<close>

text \<open>
  A sequence of \<^verbatim>\<open>search_chat\<close> requests, each given by the requesting socket and the id
  the generator would hand out. A delivered \<^verbatim>\<open>chat_connected\<close> is a self-match when its
  \<^verbatim>\<open>partnerId\<close> is the \<^verbatim>\<open>userId\<close> of the socket it was delivered to;
  \<open>no_self_match_run\<close> checks the events of every request of the sequence against the
  state right after that request. \<open>pool_ids_agree\<close> says that every socket waiting under
  a non-empty key holds that key as its \<^verbatim>\<open>userId\<close>: \<^verbatim>\<open>search_chat\<close> keeps it, and
  \<^verbatim>\<open>authenticate\<close> on a waiting socket breaks it.
\<close>

fun run_searches :: "(string \<times> nat) list \<Rightarrow> state \<Rightarrow> state" where
  "run_searches [] s = s"
| "run_searches ((rnd, sid) # rs) s = run_searches rs (search_chat rnd sid s)"

fun self_matched :: "state \<Rightarrow> nat \<times> event \<Rightarrow> bool" where
  "self_matched s (sid, ChatConnected (Some p) n) = (userId (sockets s sid) = Some p)"
| "self_matched s (sid, e) = False"

fun no_self_match_run :: "(string \<times> nat) list \<Rightarrow> state \<Rightarrow> bool" where
  "no_self_match_run [] s = True"
| "no_self_match_run ((rnd, sid) # rs) s =
     (list_all (\<lambda>e. \<not> self_matched (search_chat rnd sid s) e)
        (drop (length (outbox s)) (outbox (search_chat rnd sid s)))
      \<and> no_self_match_run rs (search_chat rnd sid s))"

definition pool_ids_agree :: "state \<Rightarrow> bool" where
  "pool_ids_agree s =
     list_all (\<lambda>(k, ws). k = [] \<or> userId (sockets s ws) = Some k) (DAList.impl_of (waitingUsers s))"

section \<open>Runs of the server\<close>

text \<open>
  One request is one event received from one socket, with the values the handler takes
  from outside (token verification, generated id, database result, clock). \<open>live\<close>: the
  socket is unauthenticated or is the socket registered for its \<^verbatim>\<open>userId\<close> (it was
  neither superseded nor disconnected). A request is \<open>clean\<close> when it comes from a live
  socket, when an id it assigns (by \<^verbatim>\<open>authenticate\<close> or by the auto-authentication of
  \<^verbatim>\<open>search_chat\<close>) goes to a socket without \<^verbatim>\<open>userId\<close> and is non-empty and not
  registered, and when the two sockets it would pair both have no \<^verbatim>\<open>chatPartnerId\<close>.
  The handlers check none of this; \<open>reachable\<close> are the states of the runs in which
  the clients keep to it. The handlers not listed (\<^verbatim>\<open>typing\<close>, \<^verbatim>\<open>report_user\<close>, the friend
  requests, the presence events and the WebRTC signalling) only emit events: they write
  neither of the two maps nor any field of a socket.
\<close>

datatype request =
    Authenticate nat string "(string \<times> string) option" string
  | SearchChat nat string
  | SendMessage nat string "(string \<times> nat) option" string nat nat
  | LeaveChat nat
  | StartChatWithFriend nat string
  | EndVideoCall nat
  | Disconnect nat

fun handle :: "request \<Rightarrow> state \<Rightarrow> state" where
  "handle (Authenticate sid token decoded rnd) s = authenticate token decoded rnd sid s"
| "handle (SearchChat sid rnd) s = search_chat rnd sid s"
| "handle (SendMessage sid message db rnd t_created t_sent) s =
     send_message message db rnd t_created t_sent sid s"
| "handle (LeaveChat sid) s = leave_chat sid s"
| "handle (StartChatWithFriend sid friendId) s = start_chat_with_friend friendId sid s"
| "handle (EndVideoCall sid) s = end_video_call sid s"
| "handle (Disconnect sid) s = disconnect sid s"

definition live :: "nat \<Rightarrow> state \<Rightarrow> bool" where
  "live sid s = (case userId (sockets s sid) of None \<Rightarrow> True | Some u \<Rightarrow> userSockets s u = Some sid)"

fun clean :: "request \<Rightarrow> state \<Rightarrow> bool" where
  "clean (Authenticate sid token decoded rnd) s =
     (userId (sockets s sid) = None
      \<and> fst (resolve_identity token decoded rnd) \<noteq> []
      \<and> userSockets s (fst (resolve_identity token decoded rnd)) = None)"
| "clean (SearchChat sid rnd) s =
     (live sid s
      \<and> (userId (sockets s sid) = None \<longrightarrow> rnd \<noteq> [] \<and> userSockets s rnd = None)
      \<and> (case find (\<lambda>k. k \<noteq> caller_id rnd sid s) (waiting_keys (waitingUsers s)) of
            None \<Rightarrow> True
          | Some pid \<Rightarrow>
              (case DAList.lookup (waitingUsers s) pid of
                 None \<Rightarrow> True
               | Some psid \<Rightarrow>
                   pid \<noteq> [] \<longrightarrow>
                     chatPartnerId (sockets s sid) = None \<and> chatPartnerId (sockets s psid) = None)))"
| "clean (StartChatWithFriend sid friendId) s =
     (live sid s
      \<and> (case userSockets s friendId of
            None \<Rightarrow> True
          | Some fsid \<Rightarrow>
              userId (sockets s sid) \<noteq> None \<longrightarrow>
                chatPartnerId (sockets s sid) = None \<and> chatPartnerId (sockets s fsid) = None))"
| "clean (LeaveChat sid) s = live sid s"
| "clean (Disconnect sid) s = live sid s"
| "clean (SendMessage sid message db rnd t_created t_sent) s = True"
| "clean (EndVideoCall sid) s = True"

inductive reachable :: "state \<Rightarrow> bool" where
  init: "reachable init_state"
| step: "reachable s \<Longrightarrow> clean r s \<Longrightarrow> reachable (handle r s)"

text \<open>
  The properties of a state: every registered socket holds the id it is registered
  under; every waiting socket is the registered one of its key; a socket without
  \<^verbatim>\<open>userId\<close> has no partner; pairing is symmetric between registered users; and no user
  is the partner of two registered users.
\<close>

definition registry_ok :: "state \<Rightarrow> bool" where
  "registry_ok s = (\<forall>u sid. userSockets s u = Some sid \<longrightarrow> userId (sockets s sid) = Some u \<and> u \<noteq> [])"

definition pool_ok :: "state \<Rightarrow> bool" where
  "pool_ok s = (\<forall>k ws. DAList.lookup (waitingUsers s) k = Some ws \<longrightarrow> userSockets s k = Some ws)"

definition unauth_unpaired :: "state \<Rightarrow> bool" where
  "unauth_unpaired s = (\<forall>sid. userId (sockets s sid) = None \<longrightarrow> chatPartnerId (sockets s sid) = None)"

definition symmetric_pairing :: "state \<Rightarrow> bool" where
  "symmetric_pairing s =
     (\<forall>u sid p. userSockets s u = Some sid \<and> chatPartnerId (sockets s sid) = Some p \<longrightarrow>
        (\<exists>psid. userSockets s p = Some psid \<and> chatPartnerId (sockets s psid) = Some u))"

definition single_session :: "state \<Rightarrow> bool" where
  "single_session s =
     (\<forall>u v w sv sw. userSockets s v = Some sv \<and> chatPartnerId (sockets s sv) = Some u
         \<and> userSockets s w = Some sw \<and> chatPartnerId (sockets s sw) = Some u \<longrightarrow> v = w)"

definition relay_inv :: "state \<Rightarrow> bool" where
  "relay_inv s = (registry_ok s \<and> pool_ok s \<and> unauth_unpaired s \<and> symmetric_pairing s)"

section \<open>Example states\<close>

text \<open>
  Concrete runs used to instantiate the theorems: socket 0 searches alone (anonymous id
  \<open>a\<close>), socket 1 searches and is paired with it (anonymous id \<open>b\<close>), socket 2
  authenticates with the mock token of \<open>b\<close> and so supersedes socket 1 in the
  registry, and socket 2 disconnects.
\<close>

definition ex_waiting :: state where
  "ex_waiting = search_chat ''a'' 0 init_state"

definition ex_paired :: state where
  "ex_paired = search_chat ''b'' 1 ex_waiting"

definition ex_superseded :: state where
  "ex_superseded = authenticate ''mock_token_b'' None ''x'' 2 ex_paired"

definition ex_partner_gone :: state where
  "ex_partner_gone = disconnect 2 ex_superseded"

text \<open>
  Socket 3 searches after 0 and 1 were paired and waits alone.
\<close>

definition ex_third_waiting :: state where
  "ex_third_waiting = search_chat ''c'' 3 ex_paired"

text \<open>
  One socket (4) searches unauthenticated, is given the id \<open>p\<close> and waits; it then
  authenticates with the mock token of \<open>x\<close>, which re-keys it in the registry but leaves
  it waiting under \<open>p\<close>. After that, socket 5 authenticates as \<open>q\<close> and starts a chat
  with \<open>x\<close>. Last, three sockets search one after the other and the first is given the
  empty id: all three stay in the pool.
\<close>

definition ex_reauth :: state where
  "ex_reauth = authenticate ''mock_token_x'' None [] 4 (search_chat ''p'' 4 init_state)"

definition ex_stale_paired :: state where
  "ex_stale_paired =
     start_chat_with_friend ''x'' 5 (authenticate ''mock_token_q'' None [] 5 ex_reauth)"


section \<open>Basic facts about the state updates\<close>

lemma emit_fields [simp]:
  "sockets (emit sid e s) = sockets s"
  "userSockets (emit sid e s) = userSockets s"
  "waitingUsers (emit sid e s) = waitingUsers s"
  "outbox (emit sid e s) = outbox s @ [(sid, e)]"
  by (simp_all add: emit_def)

lemma set_chatPartnerId_fields [simp]:
  "userSockets (set_chatPartnerId sid v s) = userSockets s"
  "waitingUsers (set_chatPartnerId sid v s) = waitingUsers s"
  "outbox (set_chatPartnerId sid v s) = outbox s"
  "sockets (set_chatPartnerId sid v s) = (sockets s)(sid := (sockets s sid)\<lparr>chatPartnerId := v\<rparr>)"
  by (simp_all add: set_chatPartnerId_def)

lemma truthy_iff: "truthy x \<longleftrightarrow> (\<exists>u. x = Some u \<and> u \<noteq> [])"
  by (cases x) auto

lemma waiting_keys_delete_set: "set (waiting_keys (DAList.delete k w)) = set (waiting_keys w) - {k}"
  by (simp add: waiting_keys_def DAList.delete.rep_eq delete_keys)

section \<open>The search_chat handler, case by case\<close>

lemma after_auth_fields [simp]:
  "waitingUsers (after_auth rnd sid s) = waitingUsers s"
  "outbox (after_auth rnd sid s) = outbox s"
  "userId (sockets (after_auth rnd sid s) sid) = Some (caller_id rnd sid s)"
  by (auto simp: after_auth_def auto_authenticate_def caller_id_def truthy_iff split: option.splits)

lemma search_chat_unfold:
  "search_chat rnd sid s =
     match_waiting sid (caller_id rnd sid s)
       (emit sid Searching ((after_auth rnd sid s)
          \<lparr>waitingUsers := DAList.update (caller_id rnd sid s) sid (waitingUsers s)\<rparr>))"
  unfolding search_chat_def Let_def after_auth_def[symmetric]
  by (simp)

lemma find_snoc_other:
  "\<not> P x \<Longrightarrow> find P (xs @ [x]) = find P xs"
  by (induction xs) auto

lemma find_other_update:
  "find (\<lambda>k. k \<noteq> me) (waiting_keys (DAList.update me sid w)) = find (\<lambda>k. k \<noteq> me) (waiting_keys w)"
  by (simp add: waiting_keys_def DAList.update.rep_eq update_keys find_snoc_other)

lemma distinct_two_iff:
  assumes "distinct xs" and "me \<in> set xs"
  shows "2 \<le> length xs \<longleftrightarrow> (\<exists>k\<in>set xs. k \<noteq> me)"
proof (cases xs)
  case Nil
  with assms show ?thesis by simp
next
  case outer: (Cons x ys)
  show ?thesis
  proof (cases ys)
    case Nil
    with outer assms show ?thesis by simp
  next
    case (Cons y zs)
    with outer assms have "x \<noteq> y" by simp
    then have "x \<noteq> me \<or> y \<noteq> me" by auto
    then show ?thesis using Cons outer by auto
  qed
qed

lemma size_update_ge2:
  "2 \<le> size (DAList.update me sid w) \<longleftrightarrow> find (\<lambda>k. k \<noteq> me) (waiting_keys w) \<noteq> None"
proof -
  let ?ks = "map fst (DAList.impl_of (DAList.update me sid w))"
  have d: "distinct ?ks" by simp
  have m: "me \<in> set ?ks" by (simp add: DAList.update.rep_eq dom_update)
  have "2 \<le> length ?ks \<longleftrightarrow> (\<exists>k\<in>set ?ks. k \<noteq> me)" by (rule distinct_two_iff[OF d m])
  also have "\<dots> \<longleftrightarrow> find (\<lambda>k. k \<noteq> me) (waiting_keys (DAList.update me sid w)) \<noteq> None"
    by (simp add: find_None_iff waiting_keys_def)
  finally show ?thesis by (simp add: find_other_update size_alist_def)
qed

lemma delete_update_same_alist: "DAList.delete me (DAList.update me sid w) = DAList.delete me w"
  by (simp add: alist_eq_iff DAList.delete.rep_eq DAList.update.rep_eq delete_update_same)

lemma find_other_neq: "find (\<lambda>k. k \<noteq> me) xs = Some pid \<Longrightarrow> pid \<noteq> me \<and> pid \<in> set xs"
  by (auto simp: find_Some_iff)

lemma search_chat_alone:
  assumes "find (\<lambda>k. k \<noteq> caller_id rnd sid s) (waiting_keys (waitingUsers s)) = None"
  shows "search_chat rnd sid s =
           (after_auth rnd sid s)\<lparr>waitingUsers := DAList.update (caller_id rnd sid s) sid (waitingUsers s),
                                  outbox := outbox s @ [(sid, Searching)]\<rparr>"
  using assms
  by (simp add: search_chat_unfold match_waiting_def size_update_ge2 emit_def)

lemma search_chat_falsy_partner:
  assumes "find (\<lambda>k. k \<noteq> caller_id rnd sid s) (waiting_keys (waitingUsers s)) = Some []"
  shows "search_chat rnd sid s =
           (after_auth rnd sid s)\<lparr>waitingUsers := DAList.update (caller_id rnd sid s) sid (waitingUsers s),
                                  outbox := outbox s @ [(sid, Searching)]\<rparr>"
  using assms
  by (simp add: search_chat_unfold match_waiting_def size_update_ge2 emit_def find_other_update)

lemma search_chat_pairs:
  assumes f: "find (\<lambda>k. k \<noteq> caller_id rnd sid s) (waiting_keys (waitingUsers s)) = Some pid"
    and ne: "pid \<noteq> []"
    and l: "DAList.lookup (waitingUsers s) pid = Some psid"
  shows "search_chat rnd sid s =
           (after_auth rnd sid s)
             \<lparr>waitingUsers := DAList.delete pid (DAList.delete (caller_id rnd sid s) (waitingUsers s)),
              sockets := ((sockets (after_auth rnd sid s))
                            (sid := (sockets (after_auth rnd sid s) sid)\<lparr>chatPartnerId := Some pid\<rparr>))
                         (psid := (((sockets (after_auth rnd sid s))
                            (sid := (sockets (after_auth rnd sid s) sid)\<lparr>chatPartnerId := Some pid\<rparr>)) psid)
                              \<lparr>chatPartnerId := Some (caller_id rnd sid s)\<rparr>),
              outbox := outbox s @
                [(sid, Searching),
                 (sid, ChatConnected (Some pid) (username (sockets (after_auth rnd sid s) psid))),
                 (psid, ChatConnected (Some (caller_id rnd sid s)) (username (sockets (after_auth rnd sid s) sid)))]\<rparr>"
proof -
  have neq: "pid \<noteq> caller_id rnd sid s" using find_other_neq[OF f] by simp
  show ?thesis
    using f ne l neq
    by (simp add: search_chat_unfold match_waiting_def size_update_ge2 find_other_update
        delete_update_same_alist Let_def emit_def set_chatPartnerId_def)
qed

lemma find_other_lookup:
  assumes "find (\<lambda>k. k \<noteq> me) (waiting_keys w) = Some pid"
  shows "\<exists>psid. DAList.lookup w pid = Some psid"
proof -
  have "pid \<in> fst ` set (DAList.impl_of w)" using find_other_neq[OF assms] by (simp add: waiting_keys_def)
  then show ?thesis by (auto simp: DAList.lookup.rep_eq)
qed

lemma search_chat_cases [case_names alone falsy pairs]:
  obtains
    (alone) "find (\<lambda>k. k \<noteq> caller_id rnd sid s) (waiting_keys (waitingUsers s)) = None"
  | (falsy) "find (\<lambda>k. k \<noteq> caller_id rnd sid s) (waiting_keys (waitingUsers s)) = Some []"
  | (pairs) pid psid where
      "find (\<lambda>k. k \<noteq> caller_id rnd sid s) (waiting_keys (waitingUsers s)) = Some pid"
      "pid \<noteq> []" "DAList.lookup (waitingUsers s) pid = Some psid"
proof (cases "find (\<lambda>k. k \<noteq> caller_id rnd sid s) (waiting_keys (waitingUsers s))")
  case None
  then show ?thesis by (rule alone)
next
  case (Some pid)
  show ?thesis
  proof (cases "pid = []")
    case True
    with Some show ?thesis by (simp add: falsy)
  next
    case False
    from find_other_lookup[OF Some] obtain psid where "DAList.lookup (waitingUsers s) pid = Some psid" ..
    with Some False show ?thesis by (rule pairs)
  qed
qed

lemma search_chat_userSockets:
  "userSockets (search_chat rnd sid s) = userSockets (after_auth rnd sid s)"
  by (cases rule: search_chat_cases[of rnd sid s])
     (simp_all add: search_chat_alone search_chat_falsy_partner search_chat_pairs)

lemma search_chat_userId:
  "userId (sockets (search_chat rnd sid s) x) = userId (sockets (after_auth rnd sid s) x)"
  by (cases rule: search_chat_cases[of rnd sid s])
     (simp_all add: search_chat_alone search_chat_falsy_partner search_chat_pairs)

lemma search_chat_username:
  "username (sockets (search_chat rnd sid s) x) = username (sockets (after_auth rnd sid s) x)"
  by (cases rule: search_chat_cases[of rnd sid s])
     (simp_all add: search_chat_alone search_chat_falsy_partner search_chat_pairs)

lemma search_chat_outbox:
  "\<exists>evs. outbox (search_chat rnd sid s) = outbox s @ (sid, Searching) # evs
         \<and> (\<forall>e\<in>set evs. \<exists>p n. snd e = ChatConnected p n)"
  by (cases rule: search_chat_cases[of rnd sid s])
     (simp_all add: search_chat_alone search_chat_falsy_partner search_chat_pairs)

lemma after_auth_unauth:
  "userId (sockets s sid) = None \<Longrightarrow> after_auth rnd sid s = auto_authenticate rnd sid s"
  "userId (sockets s sid) = None \<Longrightarrow> caller_id rnd sid s = rnd"
  by (simp_all add: after_auth_def caller_id_def)

lemma after_auth_truthy:
  "userId (sockets s sid) = Some u \<Longrightarrow> u \<noteq> [] \<Longrightarrow> after_auth rnd sid s = s"
  "userId (sockets s sid) = Some u \<Longrightarrow> u \<noteq> [] \<Longrightarrow> caller_id rnd sid s = u"
  by (simp_all add: after_auth_def caller_id_def)

lemma waiting_keys_update_mem: "k \<in> set (waiting_keys (DAList.update k v w))"
  by (simp add: waiting_keys_def DAList.update.rep_eq dom_update)




section \<open>Sequences of match requests keep the pool consistent\<close>

lemma pool_ids_agreeD:
  "pool_ids_agree s \<Longrightarrow> (k, ws) \<in> set (DAList.impl_of (waitingUsers s)) \<Longrightarrow> k \<noteq> []
     \<Longrightarrow> userId (sockets s ws) = Some k"
  by (auto simp: pool_ids_agree_def list_all_iff)

lemma dalist_entry_lookup:
  "(k, v) \<in> set (DAList.impl_of m) \<longleftrightarrow> DAList.lookup m k = Some v"
  by (simp add: DAList.lookup.rep_eq)

lemma update_entries:
  "(k, v) \<in> set (DAList.impl_of (DAList.update k' v' w))
     \<Longrightarrow> (k, v) = (k', v') \<or> ((k, v) \<in> set (DAList.impl_of w) \<and> k \<noteq> k')"
  by (auto simp: dalist_entry_lookup lookup_update split: if_splits)

lemma delete_entries:
  "(k, v) \<in> set (DAList.impl_of (DAList.delete k' w)) \<longleftrightarrow> (k, v) \<in> set (DAList.impl_of w) \<and> k \<noteq> k'"
  by (auto simp: dalist_entry_lookup)

lemma after_auth_userId:
  "userId (sockets (after_auth rnd sid s) x) =
     (if x = sid then Some (caller_id rnd sid s) else userId (sockets s x))"
  by (auto simp: after_auth_def auto_authenticate_def caller_id_def truthy_iff split: option.splits)

lemma caller_id_truthy:
  "userId (sockets s sid) = Some k \<Longrightarrow> k \<noteq> [] \<Longrightarrow> caller_id rnd sid s = k"
  by (simp add: caller_id_def)

lemma search_chat_pool_entries:
  assumes "(k, ws) \<in> set (DAList.impl_of (waitingUsers (search_chat rnd sid s)))"
  shows "(k, ws) = (caller_id rnd sid s, sid)
         \<or> ((k, ws) \<in> set (DAList.impl_of (waitingUsers s)) \<and> k \<noteq> caller_id rnd sid s)"
proof (cases rule: search_chat_cases[of rnd sid s])
  case alone
  with assms show ?thesis
    by (auto simp: search_chat_alone dest: update_entries)
next
  case falsy
  with assms show ?thesis
    by (auto simp: search_chat_falsy_partner dest: update_entries)
next
  case (pairs pid psid)
  with assms show ?thesis
    by (auto simp: search_chat_pairs delete_entries)
qed

lemma search_chat_pool_ids_agree:
  assumes "pool_ids_agree s"
  shows "pool_ids_agree (search_chat rnd sid s)"
proof -
  have "k = [] \<or> userId (sockets (search_chat rnd sid s) ws) = Some k"
    if "(k, ws) \<in> set (DAList.impl_of (waitingUsers (search_chat rnd sid s)))" for k ws
  proof (cases "k = []")
    case True then show ?thesis by simp
  next
    case False
    from search_chat_pool_entries[OF that] show ?thesis
    proof
      assume "(k, ws) = (caller_id rnd sid s, sid)"
      then show ?thesis by (simp add: search_chat_userId)
    next
      assume a: "(k, ws) \<in> set (DAList.impl_of (waitingUsers s)) \<and> k \<noteq> caller_id rnd sid s"
      then have u: "userId (sockets s ws) = Some k"
        using pool_ids_agreeD[OF assms] False by blast
      have "ws \<noteq> sid" using caller_id_truthy[of s ws k rnd] u False a by auto
      then show ?thesis by (simp add: search_chat_userId after_auth_userId u)
    qed
  qed
  then show ?thesis by (auto simp: pool_ids_agree_def list_all_iff)
qed

lemma search_chat_no_self_match:
  assumes "pool_ids_agree s"
  shows "list_all (\<lambda>e. \<not> self_matched (search_chat rnd sid s) e)
           (drop (length (outbox s)) (outbox (search_chat rnd sid s)))"
proof (cases rule: search_chat_cases[of rnd sid s])
  case alone
  then show ?thesis by (simp add: search_chat_alone)
next
  case falsy
  then show ?thesis by (simp add: search_chat_falsy_partner)
next
  case (pairs pid psid)
  let ?me = "caller_id rnd sid s"
  have neq: "pid \<noteq> ?me" using find_other_neq[OF pairs(1)] by simp
  have "(pid, psid) \<in> set (DAList.impl_of (waitingUsers s))"
    using pairs(3) by (simp add: dalist_entry_lookup)
  then have u: "userId (sockets s psid) = Some pid"
    using pool_ids_agreeD[OF assms] pairs(2) by blast
  have ps: "psid \<noteq> sid" using caller_id_truthy[OF u pairs(2), of rnd] neq by auto
  have 1: "userId (sockets (search_chat rnd sid s) sid) = Some ?me"
    by (simp add: search_chat_userId)
  have 2: "userId (sockets (search_chat rnd sid s) psid) = Some pid"
    using ps by (simp add: search_chat_userId after_auth_userId u)
  have o: "drop (length (outbox s)) (outbox (search_chat rnd sid s)) =
     [(sid, Searching),
      (sid, ChatConnected (Some pid) (username (sockets (after_auth rnd sid s) psid))),
      (psid, ChatConnected (Some ?me) (username (sockets (after_auth rnd sid s) sid)))]"
    by (simp add: search_chat_pairs[OF pairs])
  show ?thesis unfolding o using 1 2 neq by simp
qed

lemma pool_ids_agree_init: "pool_ids_agree init_state"
  by (simp add: pool_ids_agree_def init_state_def DAList.empty.rep_eq)

lemma search_chat_runs_no_self_match:
  assumes "pool_ids_agree s"
  shows "no_self_match_run rs s"
  using assms
proof (induction rs arbitrary: s)
  case Nil
  then show ?case by simp
next
  case (Cons r rs)
  obtain rnd0 sid0 where r: "r = (rnd0, sid0)" by (cases r)
  show ?case unfolding r
    using search_chat_no_self_match[OF Cons.prems] Cons.IH[OF search_chat_pool_ids_agree[OF Cons.prems]]
    by simp
qed

lemma search_chat_runs_no_self_match_init: "no_self_match_run rs init_state"
  by (rule search_chat_runs_no_self_match[OF pool_ids_agree_init])

section \<open>The disconnect handler\<close>

lemma disconnect_truthy:
  assumes "userId (sockets s sid) = Some u" and "u \<noteq> []"
  shows "userSockets (disconnect sid s) = (userSockets s)(u := None)"
    and "waitingUsers (disconnect sid s) = DAList.delete u (waitingUsers s)"
    and "outbox (disconnect sid s) =
           (case chatPartnerId (sockets s sid) of
              None \<Rightarrow> outbox s
            | Some p \<Rightarrow> (if p = [] then outbox s
                        else (case ((userSockets s)(u := None)) p of
                                None \<Rightarrow> outbox s
                              | Some psid \<Rightarrow> outbox s @ [(psid, PartnerLeft)])))"
    and "sockets (disconnect sid s) =
           (case chatPartnerId (sockets s sid) of
              None \<Rightarrow> sockets s
            | Some p \<Rightarrow> (if p = [] then sockets s
                        else (case ((userSockets s)(u := None)) p of
                                None \<Rightarrow> sockets s
                              | Some psid \<Rightarrow> (sockets s)(psid := (sockets s psid)\<lparr>chatPartnerId := None\<rparr>))))"
  using assms by (auto simp: disconnect_def Let_def split: option.splits)

lemma disconnect_userId:
  "userId (sockets (disconnect sid s) x) = userId (sockets s x)"
  by (auto simp: disconnect_def Let_def split: option.splits)

lemma delete_idem_alist: "DAList.delete k (DAList.delete k w) = DAList.delete k w"
  by (simp add: alist_eq_iff DAList.delete.rep_eq delete_idem)

section \<open>Clean requests keep the pairing symmetric\<close>

lemma relay_inv_init: "relay_inv init_state"
  by (simp add: relay_inv_def registry_ok_def pool_ok_def unauth_unpaired_def symmetric_pairing_def
      init_state_def fresh_socket_def)

lemma relay_inv_same_fields:
  assumes "relay_inv s" and "sockets s' = sockets s" and "userSockets s' = userSockets s"
    and "waitingUsers s' = waitingUsers s"
  shows "relay_inv s'"
proof -
  have "relay_inv s' = relay_inv s"
    by (simp add: relay_inv_def registry_ok_def pool_ok_def unauth_unpaired_def
        symmetric_pairing_def assms(2-4))
  with assms(1) show ?thesis by simp
qed

lemma send_message_fields:
  "sockets (send_message m db rnd t1 t2 sid s) = sockets s"
  "userSockets (send_message m db rnd t1 t2 sid s) = userSockets s"
  "waitingUsers (send_message m db rnd t1 t2 sid s) = waitingUsers s"
  by (auto simp: send_message_def split: option.splits prod.splits)

lemma end_video_call_fields:
  "sockets (end_video_call sid s) = sockets s"
  "userSockets (end_video_call sid s) = userSockets s"
  "waitingUsers (end_video_call sid s) = waitingUsers s"
  by (auto simp: end_video_call_def split: option.splits)

lemma single_from_symmetric:
  assumes "symmetric_pairing s"
  shows "single_session s"
  unfolding single_session_def
proof (intro allI impI)
  fix u v w sv sw
  assume a: "userSockets s v = Some sv \<and> chatPartnerId (sockets s sv) = Some u
         \<and> userSockets s w = Some sw \<and> chatPartnerId (sockets s sw) = Some u"
  from assms a obtain su where "userSockets s u = Some su" "chatPartnerId (sockets s su) = Some v"
    unfolding symmetric_pairing_def by blast
  moreover from assms a obtain su' where "userSockets s u = Some su'" "chatPartnerId (sockets s su') = Some w"
    unfolding symmetric_pairing_def by blast
  ultimately show "v = w" by simp
qed

lemma relay_inv_register:
  assumes i: "relay_inv s" and f: "userId (sockets s sid) = None" and ne: "u \<noteq> []"
    and un: "userSockets s u = None"
    and s1: "sockets s' = (sockets s)(sid := (sockets s sid)\<lparr>userId := Some u, username := n\<rparr>)"
    and s2: "userSockets s' = (userSockets s)(u \<mapsto> sid)"
    and s3: "waitingUsers s' = waitingUsers s"
  shows "relay_inv s'"
proof -
  from i have r: "registry_ok s" and p: "pool_ok s" and a: "unauth_unpaired s" and y: "symmetric_pairing s"
    by (simp_all add: relay_inv_def)
  have nr: "userSockets s v \<noteq> Some sid" for v
    using r f unfolding registry_ok_def by (metis option.distinct(1))
  have c: "chatPartnerId (sockets s sid) = None" using a f unfolding unauth_unpaired_def by blast
  have r': "registry_ok s'"
    unfolding registry_ok_def using r ne nr
    by (auto simp: s1 s2 registry_ok_def split: if_splits)
  have p': "pool_ok s'"
    unfolding pool_ok_def using p un
    by (auto simp: s2 s3 pool_ok_def)
  have a': "unauth_unpaired s'"
    unfolding unauth_unpaired_def using a
    by (auto simp: s1 unauth_unpaired_def)
  have y': "symmetric_pairing s'"
    unfolding symmetric_pairing_def
  proof (intro allI impI)
    fix v sv q
    assume h: "userSockets s' v = Some sv \<and> chatPartnerId (sockets s' sv) = Some q"
    have "sv \<noteq> sid" using h c by (auto simp: s1 split: if_splits)
    then have v: "userSockets s v = Some sv" "chatPartnerId (sockets s sv) = Some q"
      using h by (auto simp: s1 s2 split: if_splits)
    with y obtain sq where q: "userSockets s q = Some sq" "chatPartnerId (sockets s sq) = Some v"
      unfolding symmetric_pairing_def by blast
    have "q \<noteq> u" using q un by auto
    moreover have "sq \<noteq> sid" using q nr by auto
    ultimately show "\<exists>psid. userSockets s' q = Some psid \<and> chatPartnerId (sockets s' psid) = Some v"
      using q by (auto simp: s1 s2)
  qed
  from r' p' a' y' show ?thesis by (simp add: relay_inv_def)
qed

lemma relay_inv_authenticate:
  assumes "relay_inv s" and "clean (Authenticate sid token decoded rnd) s"
  shows "relay_inv (authenticate token decoded rnd sid s)"
proof -
  obtain uid uname where ri: "resolve_identity token decoded rnd = (uid, uname)"
    by (cases "resolve_identity token decoded rnd")
  show ?thesis
    using assms(2)
    by (intro relay_inv_register[OF assms(1), where sid = sid and u = uid and n = "Some uname"])
       (simp_all add: ri authenticate_def)
qed


lemma relay_inv_unlink:
  assumes i: "relay_inv s" and reg: "userSockets s u = Some sid"
    and lk: "chatPartnerId (sockets s sid) = Some p"
    and s1: "\<And>x. userId (sockets s' x) = userId (sockets s x)"
    and s2: "\<And>x. chatPartnerId (sockets s' x) =
               (if x = sid \<or> userSockets s p = Some x then None else chatPartnerId (sockets s x))"
    and s3: "userSockets s' = userSockets s"
    and s4: "waitingUsers s' = waitingUsers s"
  shows "relay_inv s'"
proof -
  from i have r: "registry_ok s" and po: "pool_ok s" and a: "unauth_unpaired s" and y: "symmetric_pairing s"
    by (simp_all add: relay_inv_def)
  from y reg lk obtain psid where ps: "userSockets s p = Some psid" "chatPartnerId (sockets s psid) = Some u"
    unfolding symmetric_pairing_def by blast
  have r': "registry_ok s'" using r by (simp add: registry_ok_def s1 s3)
  have p': "pool_ok s'" using po by (simp add: pool_ok_def s3 s4)
  have a': "unauth_unpaired s'" using a by (simp add: unauth_unpaired_def s1 s2)
  have y': "symmetric_pairing s'"
    unfolding symmetric_pairing_def
  proof (intro allI impI)
    fix v sv q
    assume h: "userSockets s' v = Some sv \<and> chatPartnerId (sockets s' sv) = Some q"
    then have n: "sv \<noteq> sid" "sv \<noteq> psid" by (auto simp: s2 ps split: if_splits)
    with h have v: "userSockets s v = Some sv" "chatPartnerId (sockets s sv) = Some q"
      by (auto simp: s2 s3 ps split: if_splits)
    with y obtain sq where q: "userSockets s q = Some sq" "chatPartnerId (sockets s sq) = Some v"
      unfolding symmetric_pairing_def by blast
    have "sq \<noteq> sid"
    proof
      assume "sq = sid"
      with q lk have "v = p" by simp
      with v ps n show False by simp
    qed
    moreover have "sq \<noteq> psid"
    proof
      assume "sq = psid"
      with q ps have "v = u" by simp
      with v reg n show False by simp
    qed
    ultimately show "\<exists>psid. userSockets s' q = Some psid \<and> chatPartnerId (sockets s' psid) = Some v"
      using q ps by (auto simp: s2 s3)
  qed
  from r' p' a' y' show ?thesis by (simp add: relay_inv_def)
qed

lemma linked_truthy:
  assumes "relay_inv s" and "userSockets s u = Some sid" and "chatPartnerId (sockets s sid) = Some p"
  shows "p \<noteq> []"
proof -
  from assms obtain psid where "userSockets s p = Some psid"
    unfolding relay_inv_def symmetric_pairing_def by blast
  with assms(1) show ?thesis unfolding relay_inv_def registry_ok_def by blast
qed

lemma live_cases [consumes 2, case_names unauth auth]:
  assumes "live sid s" and "registry_ok s"
  obtains (unauth) "userId (sockets s sid) = None"
  | (auth) u where "userId (sockets s sid) = Some u" "u \<noteq> []" "userSockets s u = Some sid"
  using assms by (auto simp: live_def registry_ok_def split: option.splits)

lemma relay_inv_leave_chat:
  assumes i: "relay_inv s" and c: "clean (LeaveChat sid) s"
  shows "relay_inv (leave_chat sid s)"
proof -
  from i have r: "registry_ok s" by (simp add: relay_inv_def)
  from c have l: "live sid s" by simp
  from l r show ?thesis
  proof (cases rule: live_cases)
    case unauth
    then show ?thesis using i by (simp add: leave_chat_def)
  next
    case (auth u)
    show ?thesis
    proof (cases "chatPartnerId (sockets s sid)")
      case None
      then show ?thesis using i by (simp add: leave_chat_def)
    next
      case (Some p)
      have pn: "p \<noteq> []" by (rule linked_truthy[OF i auth(3) Some])
      show ?thesis
        by (rule relay_inv_unlink[OF i auth(3) Some])
           (auto simp: leave_chat_def auth Some pn split: option.splits)
    qed
  qed
qed


lemma relay_inv_unregister:
  assumes i: "relay_inv s" and reg: "userSockets s u = Some sid"
    and s1: "\<And>x. userId (sockets s' x) = userId (sockets s x)"
    and s2: "\<And>x. chatPartnerId (sockets s' x) =
               (if (\<exists>p. chatPartnerId (sockets s sid) = Some p \<and> p \<noteq> u \<and> userSockets s p = Some x)
                then None else chatPartnerId (sockets s x))"
    and s3: "userSockets s' = (userSockets s)(u := None)"
    and s4: "waitingUsers s' = DAList.delete u (waitingUsers s)"
  shows "relay_inv s'"
proof -
  from i have r: "registry_ok s" and po: "pool_ok s" and a: "unauth_unpaired s" and y: "symmetric_pairing s"
    by (simp_all add: relay_inv_def)
  have r': "registry_ok s'" using r by (simp add: registry_ok_def s1 s3)
  have p': "pool_ok s'" using po by (auto simp: pool_ok_def s3 s4 split: if_splits)
  have a': "unauth_unpaired s'" using a by (simp add: unauth_unpaired_def s1 s2)
  have y': "symmetric_pairing s'"
    unfolding symmetric_pairing_def
  proof (intro allI impI)
    fix v sv q
    assume h: "userSockets s' v = Some sv \<and> chatPartnerId (sockets s' sv) = Some q"
    then have vu: "v \<noteq> u" and v: "userSockets s v = Some sv"
      by (auto simp: s3 split: if_splits)
    from h have nc: "\<not> (\<exists>p. chatPartnerId (sockets s sid) = Some p \<and> p \<noteq> u \<and> userSockets s p = Some sv)"
      and lv: "chatPartnerId (sockets s sv) = Some q"
      by (auto simp: s2 split: if_splits)
    from y v lv obtain sq where q: "userSockets s q = Some sq" "chatPartnerId (sockets s sq) = Some v"
      unfolding symmetric_pairing_def by blast
    have qu: "q \<noteq> u"
    proof
      assume "q = u"
      with q reg have "chatPartnerId (sockets s sid) = Some v" by simp
      with nc vu v show False by blast
    qed
    have "\<not> (\<exists>p. chatPartnerId (sockets s sid) = Some p \<and> p \<noteq> u \<and> userSockets s p = Some sq)"
    proof
      assume "\<exists>p. chatPartnerId (sockets s sid) = Some p \<and> p \<noteq> u \<and> userSockets s p = Some sq"
      then obtain p where p: "chatPartnerId (sockets s sid) = Some p" "userSockets s p = Some sq" by blast
      from r p(2) q(1) have "p = q" unfolding registry_ok_def by (metis option.inject)
      with y reg p(1) obtain sq' where "userSockets s q = Some sq'" "chatPartnerId (sockets s sq') = Some u"
        unfolding symmetric_pairing_def by blast
      with q vu show False by simp
    qed
    then show "\<exists>psid. userSockets s' q = Some psid \<and> chatPartnerId (sockets s' psid) = Some v"
      using q qu by (simp add: s2 s3)
  qed
  from r' p' a' y' show ?thesis by (simp add: relay_inv_def)
qed

lemma relay_inv_disconnect:
  assumes i: "relay_inv s" and c: "clean (Disconnect sid) s"
  shows "relay_inv (disconnect sid s)"
proof -
  from i have r: "registry_ok s" by (simp add: relay_inv_def)
  from c have l: "live sid s" by simp
  from l r show ?thesis
  proof (cases rule: live_cases)
    case unauth
    then show ?thesis using i by (simp add: disconnect_def)
  next
    case (auth u)
    note d = disconnect_truthy[OF auth(1,2)]
    have no_empty: "userSockets s [] = None"
      using r unfolding registry_ok_def by (cases "userSockets s []") auto
    show ?thesis
    proof (rule relay_inv_unregister[OF i auth(3)])
      show "userId (sockets (disconnect sid s) x) = userId (sockets s x)" for x
        by (rule disconnect_userId)
      show "chatPartnerId (sockets (disconnect sid s) x) =
               (if (\<exists>p. chatPartnerId (sockets s sid) = Some p \<and> p \<noteq> u \<and> userSockets s p = Some x)
                then None else chatPartnerId (sockets s x))" for x
        using no_empty by (auto simp: d split: option.splits)
      show "userSockets (disconnect sid s) = (userSockets s)(u := None)" by (rule d)
      show "waitingUsers (disconnect sid s) = DAList.delete u (waitingUsers s)" by (rule d)
    qed
  qed
qed

lemma relay_inv_link:
  assumes i: "relay_inv s" and r1: "userSockets s me = Some sid" and r2: "userSockets s pid = Some psid"
    and u1: "chatPartnerId (sockets s sid) = None" and u2: "chatPartnerId (sockets s psid) = None"
    and s1: "\<And>x. userId (sockets s' x) = userId (sockets s x)"
    and s2: "\<And>x. chatPartnerId (sockets s' x) =
               (if x = psid then Some me else if x = sid then Some pid else chatPartnerId (sockets s x))"
    and s3: "userSockets s' = userSockets s"
    and s4: "\<And>k ws. DAList.lookup (waitingUsers s') k = Some ws
               \<Longrightarrow> DAList.lookup (waitingUsers s) k = Some ws"
  shows "relay_inv s'"
proof -
  from i have r: "registry_ok s" and po: "pool_ok s" and a: "unauth_unpaired s" and y: "symmetric_pairing s"
    by (simp_all add: relay_inv_def)
  have r': "registry_ok s'" using r by (simp add: registry_ok_def s1 s3)
  have p': "pool_ok s'" using po s4 by (simp add: pool_ok_def s3)
  have us: "userId (sockets s sid) = Some me" "userId (sockets s psid) = Some pid"
    using r r1 r2 unfolding registry_ok_def by blast+
  have a': "unauth_unpaired s'" using a us by (auto simp: unauth_unpaired_def s1 s2)
  have y': "symmetric_pairing s'"
    unfolding symmetric_pairing_def
  proof (intro allI impI)
    fix v sv q
    assume h: "userSockets s' v = Some sv \<and> chatPartnerId (sockets s' sv) = Some q"
    then have v: "userSockets s v = Some sv" by (simp add: s3)
    have uv: "userId (sockets s sv) = Some v" using r v unfolding registry_ok_def by blast
    show "\<exists>psid. userSockets s' q = Some psid \<and> chatPartnerId (sockets s' psid) = Some v"
    proof (cases "sv = psid")
      case True
      with h uv us have "v = pid" "q = me" by (auto simp: s2)
      moreover have "chatPartnerId (sockets s' sid) = Some pid"
        using us by (auto simp: s2)
      ultimately show ?thesis using r1 by (auto simp: s3)
    next
      case False
      show ?thesis
      proof (cases "sv = sid")
        case True
        with h uv us False have "v = me" "q = pid" by (auto simp: s2)
        then show ?thesis using r2 by (auto simp: s2 s3)
      next
        case F2: False
        with False h have lv: "chatPartnerId (sockets s sv) = Some q" by (simp add: s2)
        with y v obtain sq where q: "userSockets s q = Some sq" "chatPartnerId (sockets s sq) = Some v"
          unfolding symmetric_pairing_def by blast
        then have "sq \<noteq> sid" "sq \<noteq> psid" using u1 u2 by auto
        with q show ?thesis by (auto simp: s2 s3)
      qed
    qed
  qed
  from r' p' a' y' show ?thesis by (simp add: relay_inv_def)
qed

lemma relay_inv_enqueue:
  assumes i: "relay_inv s" and r1: "userSockets s me = Some sid"
    and s1: "sockets s' = sockets s" and s3: "userSockets s' = userSockets s"
    and s4: "waitingUsers s' = DAList.update me sid (waitingUsers s)"
  shows "relay_inv s'"
proof -
  from i have "pool_ok s" by (simp add: relay_inv_def)
  then have "pool_ok s'" using r1 by (auto simp: pool_ok_def s3 s4 lookup_update split: if_splits)
  moreover have "registry_ok s' = registry_ok s" by (simp add: registry_ok_def s1 s3)
  moreover have "unauth_unpaired s' = unauth_unpaired s" by (simp add: unauth_unpaired_def s1)
  moreover have "symmetric_pairing s' = symmetric_pairing s" by (simp add: symmetric_pairing_def s1 s3)
  ultimately show ?thesis using i by (simp add: relay_inv_def)
qed

lemma relay_inv_start_chat_with_friend:
  assumes i: "relay_inv s" and c: "clean (StartChatWithFriend sid friendId) s"
  shows "relay_inv (start_chat_with_friend friendId sid s)"
proof -
  from i have r: "registry_ok s" by (simp add: relay_inv_def)
  from c have l: "live sid s" by simp
  from l r show ?thesis
  proof (cases rule: live_cases)
    case unauth
    then show ?thesis
      by (intro relay_inv_same_fields[OF i]) (simp_all add: start_chat_with_friend_def)
  next
    case (auth u)
    show ?thesis
    proof (cases "userSockets s friendId")
      case None
      then show ?thesis
        by (intro relay_inv_same_fields[OF i]) (simp_all add: start_chat_with_friend_def)
    next
      case (Some fsid)
      with c auth have un: "chatPartnerId (sockets s sid) = None" "chatPartnerId (sockets s fsid) = None"
        by simp_all
      show ?thesis
        by (rule relay_inv_link[OF i auth(3) Some un])
           (auto simp: start_chat_with_friend_def auth Some Let_def)
    qed
  qed
qed


lemma after_auth_clean:
  assumes i: "relay_inv s" and l: "live sid s"
    and f: "userId (sockets s sid) = None \<longrightarrow> rnd \<noteq> [] \<and> userSockets s rnd = None"
  shows "relay_inv (after_auth rnd sid s)"
    and "userSockets (after_auth rnd sid s) (caller_id rnd sid s) = Some sid"
    and "\<And>x. chatPartnerId (sockets (after_auth rnd sid s) x) = chatPartnerId (sockets s x)"
proof -
  from i have r: "registry_ok s" by (simp add: relay_inv_def)
  from l r have "relay_inv (after_auth rnd sid s)
      \<and> userSockets (after_auth rnd sid s) (caller_id rnd sid s) = Some sid
      \<and> (\<forall>x. chatPartnerId (sockets (after_auth rnd sid s) x) = chatPartnerId (sockets s x))"
  proof (cases rule: live_cases)
    case unauth
    have a: "after_auth rnd sid s = auto_authenticate rnd sid s" "caller_id rnd sid s = rnd"
      using unauth by (simp_all add: after_auth_unauth)
    from f unauth have ne: "rnd \<noteq> []" and un: "userSockets s rnd = None" by simp_all
    have "relay_inv (auto_authenticate rnd sid s)"
      by (rule relay_inv_register[OF i unauth ne un, where n = "Some (''Anonymous_'' @ take 5 rnd)"])
         (simp_all add: auto_authenticate_def)
    then show ?thesis by (simp add: a auto_authenticate_def)
  next
    case (auth u)
    have a: "after_auth rnd sid s = s" "caller_id rnd sid s = u"
      using after_auth_truthy[OF auth(1,2)] by simp_all
    show ?thesis using i auth by (simp add: a)
  qed
  then show "relay_inv (after_auth rnd sid s)"
    and "userSockets (after_auth rnd sid s) (caller_id rnd sid s) = Some sid"
    and "\<And>x. chatPartnerId (sockets (after_auth rnd sid s) x) = chatPartnerId (sockets s x)"
    by simp_all
qed

lemma relay_inv_search_chat:
  assumes i: "relay_inv s" and c: "clean (SearchChat sid rnd) s"
  shows "relay_inv (search_chat rnd sid s)"
proof -
  let ?s1 = "after_auth rnd sid s" and ?me = "caller_id rnd sid s"
  from c have l: "live sid s"
    and f: "userId (sockets s sid) = None \<longrightarrow> rnd \<noteq> [] \<and> userSockets s rnd = None"
    by simp_all
  note a = after_auth_clean[OF i l f]
  show ?thesis
  proof (cases rule: search_chat_cases[of rnd sid s])
    case alone
    show ?thesis
      by (rule relay_inv_enqueue[OF a(1) a(2)]) (simp_all add: search_chat_alone[OF alone])
  next
    case falsy
    show ?thesis
      by (rule relay_inv_enqueue[OF a(1) a(2)]) (simp_all add: search_chat_falsy_partner[OF falsy])
  next
    case (pairs pid psid)
    from c pairs have un: "chatPartnerId (sockets s sid) = None" "chatPartnerId (sockets s psid) = None"
      by simp_all
    from a(1) have "pool_ok ?s1" by (simp add: relay_inv_def)
    then have r2: "userSockets ?s1 pid = Some psid"
      using pairs(3) by (simp add: pool_ok_def)
    show ?thesis
    proof (rule relay_inv_link[OF a(1) a(2) r2])
      show "chatPartnerId (sockets ?s1 sid) = None" "chatPartnerId (sockets ?s1 psid) = None"
        using un by (simp_all add: a(3))
      show "userId (sockets (search_chat rnd sid s) x) = userId (sockets ?s1 x)" for x
        by (rule search_chat_userId)
      show "chatPartnerId (sockets (search_chat rnd sid s) x) =
              (if x = psid then Some ?me else if x = sid then Some pid else chatPartnerId (sockets ?s1 x))" for x
        by (simp add: search_chat_pairs[OF pairs])
      show "userSockets (search_chat rnd sid s) = userSockets ?s1"
        by (rule search_chat_userSockets)
      show "DAList.lookup (waitingUsers ?s1) k = Some ws"
        if "DAList.lookup (waitingUsers (search_chat rnd sid s)) k = Some ws" for k ws
        using that by (auto simp: search_chat_pairs[OF pairs] split: if_splits)
    qed
  qed
qed

lemma relay_inv_handle:
  assumes "relay_inv s" and "clean r s"
  shows "relay_inv (handle r s)"
proof (cases r)
  case (Authenticate sid token decoded rnd)
  with assms show ?thesis by (simp add: relay_inv_authenticate)
next
  case (SearchChat sid rnd)
  with assms show ?thesis by (simp add: relay_inv_search_chat)
next
  case (SendMessage sid m db rnd t1 t2)
  show ?thesis unfolding SendMessage handle.simps
    by (rule relay_inv_same_fields[OF assms(1)]) (rule send_message_fields)+
next
  case (LeaveChat sid)
  with assms show ?thesis by (simp add: relay_inv_leave_chat)
next
  case (StartChatWithFriend sid f)
  with assms show ?thesis by (simp add: relay_inv_start_chat_with_friend)
next
  case (EndVideoCall sid)
  show ?thesis unfolding EndVideoCall handle.simps
    by (rule relay_inv_same_fields[OF assms(1)]) (rule end_video_call_fields)+
next
  case (Disconnect sid)
  with assms show ?thesis by (simp add: relay_inv_disconnect)
qed

lemma reachable_relay_inv: "reachable s \<Longrightarrow> relay_inv s"
  by (induction rule: reachable.induct) (simp_all add: relay_inv_init relay_inv_handle)

section \<open>The example states, evaluated\<close>

lemmas dalist_eval = DAList.update.rep_eq DAList.delete.rep_eq DAList.empty.rep_eq DAList.lookup.rep_eq
  size_alist_def waiting_keys_def

lemma ex_waiting_sockets: "sockets ex_waiting = (\<lambda>_. fresh_socket)(0 := \<lparr>userId = Some ''a'', username = Some ''Anonymous_a'', chatPartnerId = None\<rparr>)"
  by (simp add: ex_waiting_def search_chat_def init_state_def auto_authenticate_def match_waiting_def fresh_socket_def dalist_eval)

lemma ex_waiting_fields:
  "userSockets ex_waiting = [''a'' \<mapsto> 0]"
  "DAList.impl_of (waitingUsers ex_waiting) = [(''a'', 0)]"
  "outbox ex_waiting = [(0, Searching)]"
  by (simp_all add: ex_waiting_def search_chat_def init_state_def auto_authenticate_def match_waiting_def fresh_socket_def dalist_eval)

lemma ex_paired_sockets: "sockets ex_paired = (\<lambda>_. fresh_socket)(0 := \<lparr>userId = Some ''a'', username = Some ''Anonymous_a'', chatPartnerId = Some ''b''\<rparr>,
   1 := \<lparr>userId = Some ''b'', username = Some ''Anonymous_b'', chatPartnerId = Some ''a''\<rparr>)"
  by (simp add: ex_paired_def search_chat_def ex_waiting_sockets ex_waiting_fields auto_authenticate_def match_waiting_def fresh_socket_def dalist_eval fun_upd_twist)

lemma ex_paired_fields:
  "userSockets ex_paired = [''a'' \<mapsto> 0, ''b'' \<mapsto> 1]"
  "DAList.impl_of (waitingUsers ex_paired) = []"
  "outbox ex_paired = [(0, Searching), (1, Searching), (1, ChatConnected (Some ''a'') (Some ''Anonymous_a'')), (0, ChatConnected (Some ''b'') (Some ''Anonymous_b''))]"
  by (simp_all add: ex_paired_def search_chat_def ex_waiting_sockets ex_waiting_fields auto_authenticate_def match_waiting_def fresh_socket_def dalist_eval)

lemma ex_superseded_sockets: "sockets ex_superseded = (sockets ex_paired)(2 := \<lparr>userId = Some ''b'', username = Some ''User_b'', chatPartnerId = None\<rparr>)"
  by (simp add: ex_superseded_def authenticate_def resolve_identity_def ex_paired_sockets fresh_socket_def)

lemma ex_superseded_fields:
  "userSockets ex_superseded = [''a'' \<mapsto> 0, ''b'' \<mapsto> 2]"
  "waitingUsers ex_superseded = waitingUsers ex_paired"
  by (simp_all add: ex_superseded_def authenticate_def resolve_identity_def ex_paired_fields)

lemma ex_partner_gone_fields:
  "sockets ex_partner_gone = sockets ex_superseded"
  "userSockets ex_partner_gone = [''a'' \<mapsto> 0]"
  "outbox ex_partner_gone = outbox ex_superseded"
  by (simp_all add: ex_partner_gone_def disconnect_def ex_superseded_sockets ex_superseded_fields fun_upd_twist)

lemma ex_third_waiting_sockets:
  "sockets ex_third_waiting = (sockets ex_paired)(3 := \<lparr>userId = Some ''c'', username = Some ''Anonymous_c'', chatPartnerId = None\<rparr>)"
  by (simp add: ex_third_waiting_def search_chat_def ex_paired_sockets ex_paired_fields auto_authenticate_def match_waiting_def fresh_socket_def dalist_eval)

lemma ex_third_waiting_fields:
  "userSockets ex_third_waiting = [''a'' \<mapsto> 0, ''b'' \<mapsto> 1, ''c'' \<mapsto> 3]"
  "DAList.impl_of (waitingUsers ex_third_waiting) = [(''c'', 3)]"
  "outbox ex_third_waiting = outbox ex_paired @ [(3, Searching)]"
  by (simp_all add: ex_third_waiting_def search_chat_def ex_paired_sockets ex_paired_fields auto_authenticate_def match_waiting_def fresh_socket_def dalist_eval)

lemma ex_reauth_sockets:
  "sockets ex_reauth = (\<lambda>_. fresh_socket)(4 := \<lparr>userId = Some ''x'', username = Some ''User_x'', chatPartnerId = None\<rparr>)"
  by (simp add: ex_reauth_def authenticate_def resolve_identity_def search_chat_def init_state_def
      auto_authenticate_def match_waiting_def fresh_socket_def dalist_eval)

lemma ex_reauth_fields:
  "userSockets ex_reauth = [''p'' \<mapsto> 4, ''x'' \<mapsto> 4]"
  "DAList.impl_of (waitingUsers ex_reauth) = [(''p'', 4)]"
  "outbox ex_reauth = [(4, Searching), (4, Authenticated ''x'' ''User_x'')]"
  by (simp_all add: ex_reauth_def authenticate_def resolve_identity_def search_chat_def init_state_def
      auto_authenticate_def match_waiting_def fresh_socket_def dalist_eval)

lemma ex_stale_paired_sockets:
  "sockets ex_stale_paired = (\<lambda>_. fresh_socket)
     (4 := \<lparr>userId = Some ''x'', username = Some ''User_x'', chatPartnerId = Some ''q''\<rparr>,
      5 := \<lparr>userId = Some ''q'', username = Some ''User_q'', chatPartnerId = Some ''x''\<rparr>)"
  by (simp add: ex_stale_paired_def start_chat_with_friend_def authenticate_def resolve_identity_def
      ex_reauth_sockets ex_reauth_fields fresh_socket_def Let_def fun_upd_twist)

lemma ex_stale_paired_fields:
  "userSockets ex_stale_paired = [''p'' \<mapsto> 4, ''x'' \<mapsto> 4, ''q'' \<mapsto> 5]"
  "DAList.impl_of (waitingUsers ex_stale_paired) = [(''p'', 4)]"
  by (simp_all add: ex_stale_paired_def start_chat_with_friend_def authenticate_def resolve_identity_def
      ex_reauth_sockets ex_reauth_fields fresh_socket_def Let_def)



section \<open>Claims\<close>

text \<open>
  C1. The specification says that at every reachable state each user is in at most one Session and
  pairing is symmetric, because pairing a user who has a partner first tears the old
  pairing down. No handler does that: \<^verbatim>\<open>search_chat\<close> and \<^verbatim>\<open>start_chat_with_friend\<close>
  overwrite \<^verbatim>\<open>chatPartnerId\<close> and leave the old partner's link in place. What holds: at
  every state reachable by clean requests (from live sockets, assigning only non-empty
  unregistered ids to sockets without one, and pairing only sockets that both have no
  partner), if the socket registered for A has \<^verbatim>\<open>chatPartnerId\<close> B then B is registered
  and its socket has \<^verbatim>\<open>chatPartnerId\<close> A, and no user is the partner of two different
  registered users.
\<close>

theorem C1_clean_runs_keep_pairing_symmetric:
  assumes "reachable s"
  shows "symmetric_pairing s \<and> single_session s"
proof -
  from reachable_relay_inv[OF assms] have "symmetric_pairing s" by (simp add: relay_inv_def)
  then show ?thesis by (simp add: single_from_symmetric)
qed


theorem C1_witness:
  "reachable ex_paired \<and> symmetric_pairing ex_paired \<and> single_session ex_paired
   \<and> userSockets ex_paired ''a'' = Some 0 \<and> chatPartnerId (sockets ex_paired 0) = Some ''b''
   \<and> userSockets ex_paired ''b'' = Some 1 \<and> chatPartnerId (sockets ex_paired 1) = Some ''a''"
proof -
  have c0: "clean (SearchChat 0 ''a'') init_state"
    by (simp add: live_def init_state_def fresh_socket_def caller_id_def waiting_keys_def
        DAList.empty.rep_eq)
  have c1: "clean (SearchChat 1 ''b'') ex_waiting"
    by (simp add: live_def ex_waiting_sockets ex_waiting_fields fresh_socket_def caller_id_def
        waiting_keys_def DAList.lookup.rep_eq)
  have "reachable (handle (SearchChat 1 ''b'') (handle (SearchChat 0 ''a'') init_state))"
    using c0 c1 unfolding ex_waiting_def
    by (intro reachable.step reachable.init) simp_all
  then have r: "reachable ex_paired" by (simp add: ex_paired_def ex_waiting_def)
  from C1_clean_runs_keep_pairing_symmetric[OF r] r show ?thesis
    by (simp add: ex_paired_fields ex_paired_sockets)
qed

theorem C1_counterexample:
  "userSockets (start_chat_with_friend ''c'' 1 ex_third_waiting) ''a'' = Some 0
   \<and> chatPartnerId (sockets (start_chat_with_friend ''c'' 1 ex_third_waiting) 0) = Some ''b''
   \<and> userSockets (start_chat_with_friend ''c'' 1 ex_third_waiting) ''b'' = Some 1
   \<and> chatPartnerId (sockets (start_chat_with_friend ''c'' 1 ex_third_waiting) 1) = Some ''c''
   \<and> \<not> symmetric_pairing (start_chat_with_friend ''c'' 1 ex_third_waiting)"
proof -
  let ?S = "start_chat_with_friend ''c'' 1 ex_third_waiting"
  have f: "userSockets ?S ''a'' = Some 0" "chatPartnerId (sockets ?S 0) = Some ''b''"
    "userSockets ?S ''b'' = Some 1" "chatPartnerId (sockets ?S 1) = Some ''c''"
    by (simp_all add: start_chat_with_friend_def ex_third_waiting_fields ex_third_waiting_sockets
        ex_paired_sockets Let_def)
  have "\<not> symmetric_pairing ?S"
  proof
    assume "symmetric_pairing ?S"
    with f(1,2) obtain psid where "userSockets ?S ''b'' = Some psid"
      "chatPartnerId (sockets ?S psid) = Some ''a''"
      unfolding symmetric_pairing_def by blast
    with f(3,4) show False by simp
  qed
  with f show ?thesis by simp
qed

text \<open>
  C2. The specification says that a \<^verbatim>\<open>search_chat\<close> by a user who has a partner is
  rejected. The handler never looks at \<^verbatim>\<open>chatPartnerId\<close>: for a socket with a non-empty
  \<^verbatim>\<open>userId\<close> and \<^verbatim>\<open>chatPartnerId\<close> the request emits \<^verbatim>\<open>searching\<close> first and after it
  only \<^verbatim>\<open>chat_connected\<close> events (never an \<^verbatim>\<open>error\<close>). When the pool holds no key other
  than the caller's id, or its earliest other key is the empty string, the caller is put
  into the pool and nothing else changes (the links stay). When the earliest other key
  \<open>pid\<close> is a non-empty id (some socket \<open>psid\<close> always waits under it), both ids leave
  the pool, the \<^verbatim>\<open>chatPartnerId\<close> of \<open>psid\<close> becomes the caller's id, the caller's
  \<^verbatim>\<open>chatPartnerId\<close> becomes \<open>pid\<close> when \<open>psid\<close> is another socket (when it is the
  caller's own socket, waiting under an earlier id, its \<^verbatim>\<open>chatPartnerId\<close> ends as the
  caller's own id), every other socket, the old partner's too, is left as it was, and the
  events are \<^verbatim>\<open>searching\<close> and \<^verbatim>\<open>chat_connected\<close> with \<open>pid\<close> to the caller and
  \<^verbatim>\<open>chat_connected\<close> with the caller's id to \<open>psid\<close>.
\<close>

theorem C2_search_chat_while_paired:
  assumes "userId (sockets s sid) = Some me" and "me \<noteq> []"
    and "chatPartnerId (sockets s sid) = Some p" and "p \<noteq> []"
  shows "(\<exists>evs. outbox (search_chat rnd sid s) = outbox s @ (sid, Searching) # evs
                \<and> (\<forall>e\<in>set evs. \<exists>q n. snd e = ChatConnected q n))
       \<and> (find (\<lambda>k. k \<noteq> me) (waiting_keys (waitingUsers s)) = None
            \<or> find (\<lambda>k. k \<noteq> me) (waiting_keys (waitingUsers s)) = Some [] \<longrightarrow>
            search_chat rnd sid s =
              s\<lparr>waitingUsers := DAList.update me sid (waitingUsers s),
                outbox := outbox s @ [(sid, Searching)]\<rparr>)
       \<and> (find (\<lambda>k. k \<noteq> me) (waiting_keys (waitingUsers s)) = Some pid \<longrightarrow>
            (\<exists>ws. DAList.lookup (waitingUsers s) pid = Some ws))
       \<and> (find (\<lambda>k. k \<noteq> me) (waiting_keys (waitingUsers s)) = Some pid \<and> pid \<noteq> []
            \<and> DAList.lookup (waitingUsers s) pid = Some psid \<longrightarrow>
            waitingUsers (search_chat rnd sid s) = DAList.delete pid (DAList.delete me (waitingUsers s))
            \<and> chatPartnerId (sockets (search_chat rnd sid s) psid) = Some me
            \<and> (psid \<noteq> sid \<longrightarrow> chatPartnerId (sockets (search_chat rnd sid s) sid) = Some pid)
            \<and> (\<forall>x. x \<noteq> sid \<and> x \<noteq> psid \<longrightarrow> sockets (search_chat rnd sid s) x = sockets s x)
            \<and> outbox (search_chat rnd sid s) = outbox s @
                [(sid, Searching),
                 (sid, ChatConnected (Some pid) (username (sockets s psid))),
                 (psid, ChatConnected (Some me) (username (sockets s sid)))])"
proof -
  have a: "after_auth rnd sid s = s" and c: "caller_id rnd sid s = me"
    using after_auth_truthy[OF assms(1,2)] by simp_all
  have 1: "\<exists>evs. outbox (search_chat rnd sid s) = outbox s @ (sid, Searching) # evs
                \<and> (\<forall>e\<in>set evs. \<exists>q n. snd e = ChatConnected q n)"
    by (rule search_chat_outbox)
  have 2: "search_chat rnd sid s =
              s\<lparr>waitingUsers := DAList.update me sid (waitingUsers s),
                outbox := outbox s @ [(sid, Searching)]\<rparr>"
    if "find (\<lambda>k. k \<noteq> me) (waiting_keys (waitingUsers s)) = None
        \<or> find (\<lambda>k. k \<noteq> me) (waiting_keys (waitingUsers s)) = Some []"
    using that search_chat_alone[of rnd sid s] search_chat_falsy_partner[of rnd sid s]
    by (auto simp: a c)
  have 3: "\<exists>ws. DAList.lookup (waitingUsers s) pid = Some ws"
    if "find (\<lambda>k. k \<noteq> me) (waiting_keys (waitingUsers s)) = Some pid"
    using that by (rule find_other_lookup)
  have 4: "waitingUsers (search_chat rnd sid s) = DAList.delete pid (DAList.delete me (waitingUsers s))
            \<and> chatPartnerId (sockets (search_chat rnd sid s) psid) = Some me
            \<and> (psid \<noteq> sid \<longrightarrow> chatPartnerId (sockets (search_chat rnd sid s) sid) = Some pid)
            \<and> (\<forall>x. x \<noteq> sid \<and> x \<noteq> psid \<longrightarrow> sockets (search_chat rnd sid s) x = sockets s x)
            \<and> outbox (search_chat rnd sid s) = outbox s @
                [(sid, Searching),
                 (sid, ChatConnected (Some pid) (username (sockets s psid))),
                 (psid, ChatConnected (Some me) (username (sockets s sid)))]"
    if "find (\<lambda>k. k \<noteq> me) (waiting_keys (waitingUsers s)) = Some pid" "pid \<noteq> []"
       "DAList.lookup (waitingUsers s) pid = Some psid"
    using search_chat_pairs[of rnd sid s pid psid] that by (simp add: a c)
  from 1 2 3 4 show ?thesis by blast
qed

theorem C2_witness:
  "search_chat ''r'' 1 ex_paired =
     ex_paired\<lparr>waitingUsers := DAList.update ''b'' 1 (waitingUsers ex_paired),
               outbox := outbox ex_paired @ [(1, Searching)]\<rparr>
   \<and> chatPartnerId (sockets ex_third_waiting 1) = Some ''a''
   \<and> chatPartnerId (sockets (search_chat ''r'' 1 ex_third_waiting) 1) = Some ''c''
   \<and> chatPartnerId (sockets (search_chat ''r'' 1 ex_third_waiting) 3) = Some ''b''
   \<and> sockets (search_chat ''r'' 1 ex_third_waiting) 0 = sockets ex_third_waiting 0
   \<and> chatPartnerId (sockets ex_stale_paired 4) = Some ''q''
   \<and> chatPartnerId (sockets (search_chat ''r'' 4 ex_stale_paired) 4) = Some ''x''
   \<and> sockets (search_chat ''r'' 4 ex_stale_paired) 5 = sockets ex_stale_paired 5"
  using C2_search_chat_while_paired [of ex_paired 1 "''b''" "''a''" "''r''" "''c''" 3]
        C2_search_chat_while_paired [of ex_third_waiting 1 "''b''" "''a''" "''r''" "''c''" 3]
        C2_search_chat_while_paired [of ex_stale_paired 4 "''x''" "''q''" "''r''" "''p''" 4]
  by (simp add: ex_paired_fields ex_paired_sockets ex_third_waiting_fields ex_third_waiting_sockets
      ex_stale_paired_fields ex_stale_paired_sockets waiting_keys_def DAList.lookup.rep_eq)

theorem C2_counterexample:
  "truthy (chatPartnerId (sockets ex_paired 1))
   \<and> ''b'' \<in> set (waiting_keys (waitingUsers (search_chat ''r'' 1 ex_paired)))
   \<and> outbox (search_chat ''r'' 1 ex_paired) = outbox ex_paired @ [(1, Searching)]"
  by (simp add: search_chat_def match_waiting_def ex_paired_fields ex_paired_sockets dalist_eval)

text \<open>
  C3. The specification says that \<^verbatim>\<open>end_video_call\<close> tears the Session down (both session links
  cleared). The handler only relays: a socket with a truthy \<^verbatim>\<open>chatPartnerId\<close> whose
  partner is registered makes exactly one \<^verbatim>\<open>video_call_ended\<close> go to the partner's
  registered socket, and nothing else changes: every socket, in particular both
  \<^verbatim>\<open>chatPartnerId\<close> links, the registry and the waiting pool are as before.
\<close>

theorem C3_end_video_call_relays_only:
  assumes "chatPartnerId (sockets s sid) = Some p" and "p \<noteq> []"
    and "userSockets s p = Some psid"
  shows "end_video_call sid s = s\<lparr>outbox := outbox s @ [(psid, VideoCallEnded (userId (sockets s sid)))]\<rparr>"
  using assms by (simp add: end_video_call_def emit_def)

theorem C3_end_video_call_witness:
  "end_video_call 0 ex_paired = ex_paired\<lparr>outbox := outbox ex_paired @ [(1, VideoCallEnded (Some ''a''))]\<rparr>"
  using C3_end_video_call_relays_only [of ex_paired 0 "''b''" 1]
  by (simp add: ex_paired_sockets ex_paired_fields)

theorem C3_counterexample:
  "\<not> (chatPartnerId (sockets (end_video_call 0 ex_paired) 0) = None
      \<and> chatPartnerId (sockets (end_video_call 0 ex_paired) 1) = None)"
  by (simp add: end_video_call_def ex_paired_sockets ex_paired_fields)

text \<open>
  C4. The specification says that a send to a partner whose Connection is absent from the registry
  returns PartnerOffline and not \<^verbatim>\<open>message_sent\<close>. The handler has no such result: when
  the sender has a truthy \<^verbatim>\<open>userId\<close> and \<^verbatim>\<open>chatPartnerId\<close> and the partner is not in
  \<^verbatim>\<open>userSockets\<close>, the only effect is one \<^verbatim>\<open>message_sent\<close> to the sender, carrying the
  stored (or mock) message id: the payload is forwarded to nobody and no \<^verbatim>\<open>error\<close> is
  emitted.
\<close>

theorem C4_partner_absent_message_sent:
  assumes "userId (sockets s sid) = Some me" and "me \<noteq> []"
    and "chatPartnerId (sockets s sid) = Some partner" and "partner \<noteq> []"
    and "userSockets s partner = None"
  shows "send_message message db rnd t_created t_sent sid s =
           s\<lparr>outbox := outbox s @
               [(sid, case db of Some (mid, createdAt) \<Rightarrow> MessageSent mid createdAt
                              | None \<Rightarrow> MessageSent rnd t_created)]\<rparr>"
  using assms by (simp add: send_message_def emit_def split: option.split prod.split)

theorem C4_counterexample:
  "userSockets ex_partner_gone ''b'' = None
   \<and> chatPartnerId (sockets ex_partner_gone 0) = Some ''b''
   \<and> outbox (send_message ''hello'' (Some (''m1'', 5)) ''r'' 6 7 0 ex_partner_gone)
       = outbox ex_partner_gone @ [(0, MessageSent ''m1'' 5)]"
  by (simp add: send_message_def ex_partner_gone_fields ex_superseded_sockets ex_paired_sockets)

theorem C4_partner_absent_witness:
  "send_message ''hello'' None ''r'' 6 7 0 ex_partner_gone =
     ex_partner_gone\<lparr>outbox := outbox ex_partner_gone @ [(0, MessageSent ''r'' 6)]\<rparr>"
  using C4_partner_absent_message_sent [of ex_partner_gone 0 "''a''" "''b''" "''hello''" None "''r''" 6 7]
  by (simp add: ex_partner_gone_fields ex_superseded_sockets ex_paired_sockets)

text \<open>
  C5. The specification says that the caller receives \<^verbatim>\<open>searching\<close> only when no partner was
  found. The handler enqueues the caller and emits \<^verbatim>\<open>searching\<close> to it first, on every
  request. When another user waits (the earliest other key of the pool, with a non-empty
  id), the caller receives \<^verbatim>\<open>searching\<close> and then \<^verbatim>\<open>chat_connected\<close>, the partner
  receives \<^verbatim>\<open>chat_connected\<close>, and when the handler ends neither of the two is in the
  pool. When no other user waits, \<^verbatim>\<open>searching\<close> is the only event and the caller is in
  the pool.
\<close>

theorem C5_searching_always_emitted:
  "(\<exists>evs. outbox (search_chat rnd sid s) = outbox s @ (sid, Searching) # evs)
   \<and> (find (\<lambda>k. k \<noteq> caller_id rnd sid s) (waiting_keys (waitingUsers s)) = Some pid \<and> pid \<noteq> []
         \<and> DAList.lookup (waitingUsers s) pid = Some psid \<longrightarrow>
           outbox (search_chat rnd sid s) = outbox s @
             [(sid, Searching),
              (sid, ChatConnected (Some pid) (username (sockets (after_auth rnd sid s) psid))),
              (psid, ChatConnected (Some (caller_id rnd sid s)) (username (sockets (after_auth rnd sid s) sid)))]
           \<and> caller_id rnd sid s \<notin> set (waiting_keys (waitingUsers (search_chat rnd sid s)))
           \<and> pid \<notin> set (waiting_keys (waitingUsers (search_chat rnd sid s))))
   \<and> (find (\<lambda>k. k \<noteq> caller_id rnd sid s) (waiting_keys (waitingUsers s)) = None \<longrightarrow>
           outbox (search_chat rnd sid s) = outbox s @ [(sid, Searching)]
           \<and> caller_id rnd sid s \<in> set (waiting_keys (waitingUsers (search_chat rnd sid s))))"
proof -
  have 1: "\<exists>evs. outbox (search_chat rnd sid s) = outbox s @ (sid, Searching) # evs"
    using search_chat_outbox[of rnd sid s] by blast
  have 2: "outbox (search_chat rnd sid s) = outbox s @
             [(sid, Searching),
              (sid, ChatConnected (Some pid) (username (sockets (after_auth rnd sid s) psid))),
              (psid, ChatConnected (Some (caller_id rnd sid s)) (username (sockets (after_auth rnd sid s) sid)))]
           \<and> caller_id rnd sid s \<notin> set (waiting_keys (waitingUsers (search_chat rnd sid s)))
           \<and> pid \<notin> set (waiting_keys (waitingUsers (search_chat rnd sid s)))"
    if "find (\<lambda>k. k \<noteq> caller_id rnd sid s) (waiting_keys (waitingUsers s)) = Some pid" "pid \<noteq> []"
       "DAList.lookup (waitingUsers s) pid = Some psid"
    using that by (simp add: search_chat_pairs waiting_keys_delete_set)
  have 3: "outbox (search_chat rnd sid s) = outbox s @ [(sid, Searching)]
           \<and> caller_id rnd sid s \<in> set (waiting_keys (waitingUsers (search_chat rnd sid s)))"
    if "find (\<lambda>k. k \<noteq> caller_id rnd sid s) (waiting_keys (waitingUsers s)) = None"
    using that by (simp add: search_chat_alone waiting_keys_update_mem)
  from 1 2 3 show ?thesis by blast
qed

theorem C5_witness:
  "find (\<lambda>k. k \<noteq> caller_id ''b'' 1 ex_waiting) (waiting_keys (waitingUsers ex_waiting)) = Some ''a''
   \<and> outbox (search_chat ''b'' 1 ex_waiting) =
       [(0, Searching), (1, Searching),
        (1, ChatConnected (Some ''a'') (Some ''Anonymous_a'')),
        (0, ChatConnected (Some ''b'') (Some ''Anonymous_b''))]
   \<and> ''b'' \<notin> set (waiting_keys (waitingUsers (search_chat ''b'' 1 ex_waiting)))
   \<and> find (\<lambda>k. k \<noteq> caller_id ''c'' 3 ex_paired) (waiting_keys (waitingUsers ex_paired)) = None
   \<and> outbox (search_chat ''c'' 3 ex_paired) = outbox ex_paired @ [(3, Searching)]
   \<and> ''c'' \<in> set (waiting_keys (waitingUsers (search_chat ''c'' 3 ex_paired)))"
  using C5_searching_always_emitted [of "''b''" 1 ex_waiting "''a''" 0]
        C5_searching_always_emitted [of "''c''" 3 ex_paired "''a''" 0]
  by (simp add: ex_waiting_fields ex_waiting_sockets ex_paired_fields ex_paired_sockets caller_id_def
      after_auth_def auto_authenticate_def waiting_keys_def DAList.lookup.rep_eq fresh_socket_def)

theorem C5_counterexample:
  "''a'' \<in> set (waiting_keys (waitingUsers ex_waiting))
   \<and> (1, Searching) \<in> set (outbox (search_chat ''b'' 1 ex_waiting))
   \<and> (1, ChatConnected (Some ''a'') (Some ''Anonymous_a'')) \<in> set (outbox (search_chat ''b'' 1 ex_waiting))"
  unfolding ex_paired_def[symmetric]
  by (simp add: ex_paired_fields ex_waiting_fields waiting_keys_def)




text \<open>
  C7. No self-match is what the handler aims at (\<^verbatim>\<open>find(id => id !== socket.userId)\<close>, "a
  partner that isn't the current user"), but the test compares keys of the pool, not
  sockets. A socket that waits under the id \<open>p\<close> and then authenticates as \<open>x\<close> is
  still in the pool under \<open>p\<close>; its next \<^verbatim>\<open>search_chat\<close> finds the key \<open>p\<close>, that is
  itself: being the only user in the pool, it receives \<^verbatim>\<open>chat_connected\<close> with
  \<^verbatim>\<open>partnerId\<close> \<open>x\<close>, its own \<^verbatim>\<open>userId\<close>, and its \<^verbatim>\<open>chatPartnerId\<close> is its own id.
\<close>

theorem C7_self_match_after_reauthentication:
  "userId (sockets ex_reauth 4) = Some ''x''
   \<and> waiting_keys (waitingUsers ex_reauth) = [''p'']
   \<and> outbox (search_chat ''r'' 4 ex_reauth) = outbox ex_reauth @
        [(4, Searching),
         (4, ChatConnected (Some ''p'') (Some ''User_x'')),
         (4, ChatConnected (Some ''x'') (Some ''User_x''))]
   \<and> userId (sockets (search_chat ''r'' 4 ex_reauth) 4) = Some ''x''
   \<and> chatPartnerId (sockets (search_chat ''r'' 4 ex_reauth) 4) = Some ''x''"
  by (simp add: search_chat_def match_waiting_def ex_reauth_sockets ex_reauth_fields dalist_eval)

text \<open>
  C8. The specification says that after a disconnect no Session refers to the user and the
  partner is notified exactly once. The handler works from the disconnecting socket alone.
  For a socket with a non-empty \<^verbatim>\<open>userId\<close> \<open>u\<close>: \<open>u\<close> leaves the registry and the
  waiting pool. If the socket's own \<^verbatim>\<open>chatPartnerId\<close> is a non-empty id \<open>p\<close> other than
  \<open>u\<close> that is registered, the socket registered for \<open>p\<close> receives one
  \<^verbatim>\<open>partner_left\<close> and its \<^verbatim>\<open>chatPartnerId\<close> is cleared, and nothing else changes; a
  second cleanup of the same socket changes nothing but sends \<^verbatim>\<open>partner_left\<close> to that
  socket once more (when it is not the disconnecting socket itself). If the socket has no
  or an empty \<^verbatim>\<open>chatPartnerId\<close>, or it is \<open>u\<close>, or it is not registered, nothing is
  emitted, no socket changes, and a second cleanup changes nothing at all. In every case
  no socket but the one registered for \<open>p\<close> changes and only the key \<open>u\<close> leaves the
  pool: other sockets that point to \<open>u\<close> keep their \<^verbatim>\<open>chatPartnerId\<close>, and pool
  entries under other keys stay.
\<close>

theorem C8_disconnect_cleanup:
  assumes "userId (sockets s sid) = Some u" and "u \<noteq> []"
  shows "(chatPartnerId (sockets s sid) = Some p \<and> p \<noteq> [] \<and> p \<noteq> u \<and> userSockets s p = Some psid \<longrightarrow>
            disconnect sid s =
              s\<lparr>userSockets := (userSockets s)(u := None),
                waitingUsers := DAList.delete u (waitingUsers s),
                sockets := (sockets s)(psid := (sockets s psid)\<lparr>chatPartnerId := None\<rparr>),
                outbox := outbox s @ [(psid, PartnerLeft)]\<rparr>
            \<and> (psid \<noteq> sid \<longrightarrow>
                 disconnect sid (disconnect sid s) =
                   (disconnect sid s)\<lparr>outbox := outbox (disconnect sid s) @ [(psid, PartnerLeft)]\<rparr>))
       \<and> (\<not> truthy (chatPartnerId (sockets s sid)) \<or> chatPartnerId (sockets s sid) = Some u
            \<or> (\<exists>q. chatPartnerId (sockets s sid) = Some q \<and> userSockets s q = None) \<longrightarrow>
            disconnect sid s =
              s\<lparr>userSockets := (userSockets s)(u := None),
                waitingUsers := DAList.delete u (waitingUsers s)\<rparr>
            \<and> disconnect sid (disconnect sid s) = disconnect sid s)"
proof -
  have 1: "disconnect sid s =
              s\<lparr>userSockets := (userSockets s)(u := None),
                waitingUsers := DAList.delete u (waitingUsers s),
                sockets := (sockets s)(psid := (sockets s psid)\<lparr>chatPartnerId := None\<rparr>),
                outbox := outbox s @ [(psid, PartnerLeft)]\<rparr>"
    if "chatPartnerId (sockets s sid) = Some p" "p \<noteq> []" "p \<noteq> u" "userSockets s p = Some psid"
    using assms that by (simp add: disconnect_def Let_def emit_def set_chatPartnerId_def)
  have 2: "disconnect sid (disconnect sid s) =
             (disconnect sid s)\<lparr>outbox := outbox (disconnect sid s) @ [(psid, PartnerLeft)]\<rparr>"
    if h: "chatPartnerId (sockets s sid) = Some p" "p \<noteq> []" "p \<noteq> u" "userSockets s p = Some psid"
      and n: "psid \<noteq> sid"
  proof -
    let ?s' = "s\<lparr>userSockets := (userSockets s)(u := None),
                waitingUsers := DAList.delete u (waitingUsers s),
                sockets := (sockets s)(psid := (sockets s psid)\<lparr>chatPartnerId := None\<rparr>),
                outbox := outbox s @ [(psid, PartnerLeft)]\<rparr>"
    have "disconnect sid ?s' = ?s'\<lparr>outbox := outbox ?s' @ [(psid, PartnerLeft)]\<rparr>"
      using assms h n
      by (simp add: disconnect_def Let_def emit_def set_chatPartnerId_def delete_idem_alist)
    then show ?thesis unfolding 1[OF h] .
  qed
  have 3: "disconnect sid s =
              s\<lparr>userSockets := (userSockets s)(u := None),
                waitingUsers := DAList.delete u (waitingUsers s)\<rparr>"
    if "\<not> truthy (chatPartnerId (sockets s sid)) \<or> chatPartnerId (sockets s sid) = Some u
            \<or> (\<exists>q. chatPartnerId (sockets s sid) = Some q \<and> userSockets s q = None)"
    using assms that by (auto simp: disconnect_def Let_def truthy_iff split: option.splits)
  have 4: "disconnect sid (disconnect sid s) = disconnect sid s"
    if t: "\<not> truthy (chatPartnerId (sockets s sid)) \<or> chatPartnerId (sockets s sid) = Some u
            \<or> (\<exists>q. chatPartnerId (sockets s sid) = Some q \<and> userSockets s q = None)"
  proof -
    let ?s' = "s\<lparr>userSockets := (userSockets s)(u := None),
                waitingUsers := DAList.delete u (waitingUsers s)\<rparr>"
    have "disconnect sid ?s' = ?s'"
      using assms t
      by (auto simp: disconnect_def Let_def truthy_iff delete_idem_alist split: option.splits)
    then show ?thesis unfolding 3[OF t] .
  qed
  from 1 2 3 4 show ?thesis by blast
qed

theorem C8_witness:
  "disconnect 0 ex_paired =
     ex_paired\<lparr>userSockets := (userSockets ex_paired)(''a'' := None),
               waitingUsers := DAList.delete ''a'' (waitingUsers ex_paired),
               sockets := (sockets ex_paired)(1 := (sockets ex_paired 1)\<lparr>chatPartnerId := None\<rparr>),
               outbox := outbox ex_paired @ [(1, PartnerLeft)]\<rparr>
   \<and> disconnect 0 (disconnect 0 ex_paired) =
       (disconnect 0 ex_paired)\<lparr>outbox := outbox (disconnect 0 ex_paired) @ [(1, PartnerLeft)]\<rparr>
   \<and> disconnect 0 ex_waiting =
       ex_waiting\<lparr>userSockets := (userSockets ex_waiting)(''a'' := None),
                  waitingUsers := DAList.delete ''a'' (waitingUsers ex_waiting)\<rparr>
   \<and> disconnect 0 (disconnect 0 ex_waiting) = disconnect 0 ex_waiting"
proof -
  have u: "userId (sockets ex_paired 0) = Some ''a''" and n: "''a'' \<noteq> []"
    by (simp_all add: ex_paired_sockets)
  have p: "chatPartnerId (sockets ex_paired 0) = Some ''b'' \<and> ''b'' \<noteq> [] \<and> ''b'' \<noteq> ''a''
           \<and> userSockets ex_paired ''b'' = Some 1"
    by (simp add: ex_paired_fields ex_paired_sockets)
  have d: "(1::nat) \<noteq> 0" by simp
  have w: "userId (sockets ex_waiting 0) = Some ''a''" "\<not> truthy (chatPartnerId (sockets ex_waiting 0))"
    by (simp_all add: ex_waiting_sockets)
  from C8_disconnect_cleanup [OF u n, of "''b''" 1] C8_disconnect_cleanup [OF w(1) n, of "''b''" 1]
       p d w(2)
  show ?thesis by blast
qed

theorem C8_counterexample:
  "userId (sockets ex_superseded 2) = Some ''b''
   \<and> userSockets (disconnect 2 ex_superseded) ''b'' = None
   \<and> userSockets (disconnect 2 ex_superseded) ''a'' = Some 0
   \<and> chatPartnerId (sockets (disconnect 2 ex_superseded) 0) = Some ''b''
   \<and> outbox (disconnect 2 ex_superseded) = outbox ex_superseded"
  unfolding ex_partner_gone_def[symmetric]
  by (simp add: ex_partner_gone_fields ex_superseded_sockets ex_paired_sockets)

text \<open>
  C9. A \<^verbatim>\<open>search_chat\<close> from a socket that never authenticated (\<^verbatim>\<open>userId\<close> undefined) is
  not rejected: the socket gets the generated id \<open>rnd\<close> and the name
  \<^verbatim>\<open>Anonymous_\<close> followed by the id's first five characters, the registry maps the id to
  this socket, the first event emitted is \<^verbatim>\<open>searching\<close> to the caller and every later one
  is a \<^verbatim>\<open>chat_connected\<close> (no \<^verbatim>\<open>error\<close>), and the whole outcome is the one of the same
  request by a socket already holding that id (for a non-empty id, which is what the
  handler takes for authenticated).
\<close>

theorem C9_search_chat_auto_authenticates:
  assumes "userId (sockets s sid) = None"
  shows "userId (sockets (search_chat rnd sid s) sid) = Some rnd
       \<and> username (sockets (search_chat rnd sid s) sid) = Some (''Anonymous_'' @ take 5 rnd)
       \<and> userSockets (search_chat rnd sid s) rnd = Some sid
       \<and> (\<exists>evs. outbox (search_chat rnd sid s) = outbox s @ (sid, Searching) # evs
                \<and> (\<forall>e\<in>set evs. \<exists>p n. snd e = ChatConnected p n))
       \<and> (rnd \<noteq> [] \<longrightarrow> search_chat rnd sid s = search_chat rnd' sid (auto_authenticate rnd sid s))"
proof -
  have a: "after_auth rnd sid s = auto_authenticate rnd sid s" and c: "caller_id rnd sid s = rnd"
    using assms by (simp_all add: after_auth_unauth)
  have 1: "userId (sockets (search_chat rnd sid s) sid) = Some rnd"
    by (simp add: search_chat_userId a auto_authenticate_def)
  have 2: "username (sockets (search_chat rnd sid s) sid) = Some (''Anonymous_'' @ take 5 rnd)"
    by (simp add: search_chat_username a auto_authenticate_def)
  have 3: "userSockets (search_chat rnd sid s) rnd = Some sid"
    by (simp add: search_chat_userSockets a auto_authenticate_def)
  have 5: "search_chat rnd sid s = search_chat rnd' sid (auto_authenticate rnd sid s)" if "rnd \<noteq> []"
  proof -
    have u: "userId (sockets (auto_authenticate rnd sid s) sid) = Some rnd"
      by (simp add: auto_authenticate_def)
    have "after_auth rnd' sid (auto_authenticate rnd sid s) = auto_authenticate rnd sid s"
      and "caller_id rnd' sid (auto_authenticate rnd sid s) = rnd"
      using after_auth_truthy[OF u that] by simp_all
    then show ?thesis
      by (simp add: search_chat_unfold a c auto_authenticate_def)
  qed
  from 1 2 3 5 search_chat_outbox[of rnd sid s] show ?thesis by blast
qed

theorem C9_witness:
  "userId (sockets init_state 0) = None
   \<and> userId (sockets (search_chat ''a'' 0 init_state) 0) = Some ''a''
   \<and> username (sockets (search_chat ''a'' 0 init_state) 0) = Some (''Anonymous_'' @ take 5 ''a'')
   \<and> userSockets (search_chat ''a'' 0 init_state) ''a'' = Some 0
   \<and> search_chat ''a'' 0 init_state = search_chat ''zz'' 0 (auto_authenticate ''a'' 0 init_state)"
proof -
  have h: "userId (sockets init_state 0) = None"
    by (simp add: init_state_def fresh_socket_def)
  have n: "''a'' \<noteq> []" by simp
  from C9_search_chat_auto_authenticates [OF h, of "''a''" "''zz''"] n h show ?thesis
    by blast
qed

text \<open>
  C10. \<^verbatim>\<open>disconnect\<close> deletes the registry entry of the socket's \<^verbatim>\<open>userId\<close> without
  looking at which socket is stored there: when another socket \<open>sid2\<close> is the one
  registered under that id, the disconnect of \<open>sid\<close> still unregisters the id and
  removes it from the waiting pool.
\<close>

theorem C10_disconnect_removes_live_registration:
  assumes "userId (sockets s sid) = Some u" and "u \<noteq> []"
    and "userSockets s u = Some sid2" and "sid2 \<noteq> sid"
  shows "userSockets (disconnect sid s) u = None
         \<and> u \<notin> set (waiting_keys (waitingUsers (disconnect sid s)))"
  using assms by (simp add: disconnect_def Let_def waiting_keys_delete_set split: option.split)

theorem C10_witness:
  "userSockets ex_superseded ''b'' = Some 2
   \<and> userSockets (disconnect 1 ex_superseded) ''b'' = None
   \<and> ''b'' \<notin> set (waiting_keys (waitingUsers (disconnect 1 ex_superseded)))"
  using C10_disconnect_removes_live_registration [of ex_superseded 1 "''b''" 2]
  by (simp add: ex_superseded_sockets ex_superseded_fields ex_paired_sockets)

end
